theory Spec2Isabelle
  imports Complex_Main
begin

section \<open>Weather prediction: a shallow embedding of \<^verbatim>\<open>weather_prediction.py\<close>\<close>

text \<open>
  The program is the class \<^verbatim>\<open>WeatherPredictor\<close>. Python floats and numpy
  \<^verbatim>\<open>float64\<close> values are modelled as real numbers (no rounding error, no NaN, no
  infinities); Python integers as \<open>int\<close>. Every exception the code can raise is a value
  of the type \<open>error\<close>, and a method that can raise returns \<open>error + 'a\<close>.
\<close>

datatype error =
    ExternalLookupFailure
  | OverflowError
  | NotFittedError
  | ValueError
  | IndexError
  | OutOfBoundsDatetime

subsection \<open>Calendar arithmetic of \<^verbatim>\<open>datetime\<close>\<close>

text \<open>
  \<^verbatim>\<open>datetime\<close> objects are immutable and every arithmetic operation of the library
  goes through the proleptic Gregorian ordinal of the date (day 1 is 0001-01-01). A
  \<open>datetime\<close> is therefore kept as its ordinal together with the time of day; year,
  month and day are read off the ordinal with the library's own conversion
  \<^verbatim>\<open>_ord2ymd\<close>, which is transcribed below with \<^verbatim>\<open>_ymd2ord\<close> and its tables.
\<close>

definition MAXORDINAL :: int where
  "MAXORDINAL = 3652059"

definition DAYS_IN_MONTH :: "int list" where
  "DAYS_IN_MONTH = [-1, 31, 28, 31, 30, 31, 30, 31, 31, 30, 31, 30, 31]"

definition DAYS_BEFORE_MONTH :: "int list" where
  "DAYS_BEFORE_MONTH = [-1, 0, 31, 59, 90, 120, 151, 181, 212, 243, 273, 304, 334]"

definition is_leap :: "int \<Rightarrow> bool" where
  "is_leap y = (y mod 4 = 0 \<and> (y mod 100 \<noteq> 0 \<or> y mod 400 = 0))"

definition days_before_year :: "int \<Rightarrow> int" where
  "days_before_year year = (let y = year - 1 in y * 365 + y div 4 - y div 100 + y div 400)"

definition days_before_month :: "int \<Rightarrow> int \<Rightarrow> int" where
  "days_before_month year m =
     DAYS_BEFORE_MONTH ! nat m + (if m > 2 \<and> is_leap year then 1 else 0)"

definition ymd2ord :: "int \<times> int \<times> int \<Rightarrow> int" where
  "ymd2ord ymd = (case ymd of (y, m, d) \<Rightarrow> days_before_year y + days_before_month y m + d)"

definition ord2ymd :: "int \<Rightarrow> int \<times> int \<times> int" where
  "ord2ymd n0 =
     (let n = n0 - 1;
          n400 = n div 146097; n = n mod 146097;
          n100 = n div 36524; n = n mod 36524;
          n4 = n div 1461; n = n mod 1461;
          n1 = n div 365; n = n mod 365;
          y = n400 * 400 + 1 + n100 * 100 + n4 * 4 + n1
      in if n1 = 4 \<or> n100 = 4 then (y - 1, 12, 31)
         else
           let leapyear = (n1 = 3 \<and> (n4 \<noteq> 24 \<or> n100 = 3));
               m = (n + 50) div 32;
               preceding = DAYS_BEFORE_MONTH ! nat m + (if m > 2 \<and> leapyear then 1 else 0)
           in if preceding > n
              then (y, m - 1,
                    n - (preceding
                         - (DAYS_IN_MONTH ! nat (m - 1)
                            + (if m - 1 = 2 \<and> leapyear then 1 else 0))) + 1)
              else (y, m, n - preceding + 1))"

record datetime =
  ordinal :: int
  hour :: int
  minute :: int
  second :: int
  microsecond :: int

definition year :: "datetime \<Rightarrow> int" where
  "year d = fst (ord2ymd (ordinal d))"

definition month :: "datetime \<Rightarrow> int" where
  "month d = fst (snd (ord2ymd (ordinal d)))"

definition day :: "datetime \<Rightarrow> int" where
  "day d = snd (snd (ord2ymd (ordinal d)))"

text \<open>
  The values a \<^verbatim>\<open>datetime\<close> can hold: the constructor of the library admits no
  others, so \<^verbatim>\<open>datetime.now()\<close> always satisfies this.
\<close>

definition valid_datetime :: "datetime \<Rightarrow> bool" where
  "valid_datetime d =
     (1 \<le> ordinal d \<and> ordinal d \<le> MAXORDINAL \<and> 0 \<le> hour d \<and> hour d < 24
      \<and> 0 \<le> minute d \<and> minute d < 60 \<and> 0 \<le> second d \<and> second d < 60
      \<and> 0 \<le> microsecond d \<and> microsecond d < 1000000)"

record timedelta =
  days :: int
  seconds :: int
  microseconds :: int

text \<open>
  \<^verbatim>\<open>timedelta(days=d, hours=h)\<close>: the constructor normalises to days and seconds of
  the day and raises \<^verbatim>\<open>OverflowError\<close> beyond 999999999 days.
\<close>

definition mk_timedelta :: "int \<Rightarrow> int \<Rightarrow> error + timedelta" where
  "mk_timedelta d h =
     (let dd = d + h div 24
      in if \<bar>dd\<bar> > 999999999 then Inl OverflowError
         else Inr \<lparr>days = dd, seconds = (h mod 24) * 3600, microseconds = 0\<rparr>)"

text \<open>
  \<^verbatim>\<open>datetime.__add__\<close>: the sum is formed as a \<^verbatim>\<open>timedelta\<close> counted from day 0,
  normalised, and converted back; a day outside \<open>1 .. MAXORDINAL\<close> raises
  \<^verbatim>\<open>OverflowError\<close>.
\<close>

definition datetime_add :: "datetime \<Rightarrow> timedelta \<Rightarrow> error + datetime" where
  "datetime_add d td =
     (let us = microsecond d + microseconds td;
          s = hour d * 3600 + minute d * 60 + second d + seconds td + us div 1000000;
          dd = ordinal d + days td + s div 86400;
          sec = s mod 86400
      in if 0 < dd \<and> dd \<le> MAXORDINAL
         then Inr \<lparr>ordinal = dd, hour = sec div 3600, minute = (sec mod 3600) div 60,
                   second = sec mod 60, microsecond = us mod 1000000\<rparr>
         else Inl OverflowError)"

text \<open>
  \<^verbatim>\<open>strftime('%Y-%m-%d')\<close>, which CPython hands to the C library. On Linux
  \<^verbatim>\<open>%Y\<close> is the year in decimal with no padding (the last day of year 999 prints as
  \<^verbatim>\<open>999-12-31\<close>), \<^verbatim>\<open>%m\<close> and \<^verbatim>\<open>%d\<close> are two digits, zero padded.
\<close>

definition digit :: "int \<Rightarrow> char" where
  "digit n = ''0123456789'' ! nat (n mod 10)"

fun decimal :: "nat \<Rightarrow> string" where
  "decimal n = (if n < 10 then [digit (int n)] else decimal (n div 10) @ [digit (int n)])"

declare decimal.simps [simp del]

definition strftime_ymd :: "datetime \<Rightarrow> string" where
  "strftime_ymd d =
     (let y = year d; m = month d; dd = day d
      in decimal (nat y)
         @ [CHR ''-'', digit (m div 10), digit m, CHR ''-'', digit (dd div 10), digit dd])"

text \<open>
  The calendar date that a string of the form year, \<^verbatim>\<open>-MM-DD\<close> denotes, the year
  being all that stands before the last six characters: used to say which day the date
  of a record is.
\<close>

definition digit_value :: "char \<Rightarrow> int" where
  "digit_value c = int (of_char c) - 48"

definition decimal_value :: "string \<Rightarrow> int" where
  "decimal_value s = foldl (\<lambda>a c. 10 * a + digit_value c) 0 s"

definition parse_ymd :: "string \<Rightarrow> (int \<times> int \<times> int) option" where
  "parse_ymd s =
     (case rev s of
        d2 # d1 # s2 # m2 # m1 # s1 # y \<Rightarrow>
          Some (decimal_value (rev y),
                10 * digit_value m1 + digit_value m2,
                10 * digit_value d1 + digit_value d2)
      | _ \<Rightarrow> None)"

subsection \<open>The feature encoder\<close>

text \<open>\<^verbatim>\<open>_create_features\<close>, with the source's order of operations.\<close>

definition create_features :: "datetime \<Rightarrow> real list" where
  "create_features date =
     [ of_int (month date),
       of_int (day date),
       of_int (hour date),
       sin (2 * pi * of_int (month date) / 12),
       cos (2 * pi * of_int (month date) / 12),
       sin (2 * pi * of_int (day date) / 31),
       cos (2 * pi * of_int (day date) / 31) ]"

subsection \<open>The event classifier\<close>

text \<open>\<^verbatim>\<open>_predict_weather_event\<close>: an \<^verbatim>\<open>if\<close>/\<^verbatim>\<open>elif\<close> chain; \<^verbatim>\<open>None\<close> is \<open>None\<close>.\<close>

definition predict_weather_event :: "real \<Rightarrow> real \<Rightarrow> string option" where
  "predict_weather_event temp humidity =
     (if temp > 35 \<and> humidity < 30 then Some ''Heat Wave Warning''
      else if humidity > 80 then Some ''Heavy Rainfall Expected''
      else if temp < 15 then Some ''Cold Weather Alert''
      else if humidity < 20 then Some ''Dry Weather Warning''
      else if temp > 30 \<and> humidity > 70 then Some ''High Humidity Warning''
      else None)"

text \<open>
  The classifier as the specification words it: an ordered table of five rules, the
  first rule whose condition holds gives the label, no rule gives nothing.
\<close>

definition event_rules :: "((real \<Rightarrow> real \<Rightarrow> bool) \<times> string) list" where
  "event_rules =
     [ (\<lambda>t h. t > 35 \<and> h < 30, ''Heat Wave Warning''),
       (\<lambda>t h. h > 80, ''Heavy Rainfall Expected''),
       (\<lambda>t h. t < 15, ''Cold Weather Alert''),
       (\<lambda>t h. h < 20, ''Dry Weather Warning''),
       (\<lambda>t h. t > 30 \<and> h > 70, ''High Humidity Warning'') ]"

fun first_match :: "((real \<Rightarrow> real \<Rightarrow> bool) \<times> string) list \<Rightarrow> real \<Rightarrow> real \<Rightarrow> string option" where
  "first_match [] t h = None"
| "first_match ((p, l) # rs) t h = (if p t h then Some l else first_match rs t h)"

definition classify_spec :: "real \<Rightarrow> real \<Rightarrow> string option" where
  "classify_spec t h = first_match event_rules t h"

subsection \<open>The estimators of scikit-learn\<close>

text \<open>
  \<^verbatim>\<open>StandardScaler\<close>, \<^verbatim>\<open>RandomForestRegressor\<close> and
  \<^verbatim>\<open>GradientBoostingRegressor\<close> are library objects. What the program uses of them
  is modelled: an estimator is unfitted after construction; \<^verbatim>\<open>transform\<close> and
  \<^verbatim>\<open>predict\<close> raise \<^verbatim>\<open>NotFittedError\<close> on an unfitted estimator and
  \<^verbatim>\<open>ValueError\<close> on an input whose width is not the width seen at fitting, and
  otherwise compute a function of the fitted parameters and the input alone. A fitted
  scaler holds one pair (\<^verbatim>\<open>mean_\<close>, \<^verbatim>\<open>scale_\<close>) for every feature; a fitted
  regressor holds \<^verbatim>\<open>n_features_in_\<close> and its prediction function.
\<close>

datatype scaler_t = ScalerUnfitted | ScalerFitted "(real \<times> real) list"

record rf_regressor =
  rf_n_estimators :: nat
  rf_max_depth :: nat
  rf_random_state :: nat
  rf_fitted :: "(nat \<times> (real list \<Rightarrow> real)) option"

record gb_regressor =
  gb_n_estimators :: nat
  gb_learning_rate :: real
  gb_random_state :: nat
  gb_fitted :: "(nat \<times> (real list \<Rightarrow> real)) option"

definition transform :: "scaler_t \<Rightarrow> real list \<Rightarrow> error + real list" where
  "transform sc x =
     (case sc of
        ScalerUnfitted \<Rightarrow> Inl NotFittedError
      | ScalerFitted ps \<Rightarrow>
          if length x \<noteq> length ps then Inl ValueError
          else Inr (map (\<lambda>(v, (m, s)). (v - m) / s) (zip x ps)))"

definition regressor_predict :: "(nat \<times> (real list \<Rightarrow> real)) option \<Rightarrow> real list \<Rightarrow> error + real" where
  "regressor_predict fitted x =
     (case fitted of
        None \<Rightarrow> Inl NotFittedError
      | Some (n, f) \<Rightarrow> if length x \<noteq> n then Inl ValueError else Inr (f x))"

subsection \<open>The predictor and its surroundings\<close>

record weather_predictor =
  api_key :: string
  temp_model :: rf_regressor
  humidity_model :: gb_regressor
  scaler :: scaler_t

text \<open>\<^verbatim>\<open>WeatherPredictor.__init__\<close>\<close>

definition init :: "string \<Rightarrow> weather_predictor" where
  "init key =
     \<lparr> api_key = key,
       temp_model = \<lparr>rf_n_estimators = 200, rf_max_depth = 20, rf_random_state = 42,
                      rf_fitted = None\<rparr>,
       humidity_model = \<lparr>gb_n_estimators = 150, gb_learning_rate = 1 / 10,
                          gb_random_state = 42, gb_fitted = None\<rparr>,
       scaler = ScalerUnfitted \<rparr>"

text \<open>
  The five values \<^verbatim>\<open>get_current_weather\<close> extracts from the reply of the weather
  service.
\<close>

record current_weather =
  cw_temp :: real
  cw_humidity :: real
  cw_pressure :: real
  cw_wind_speed :: real
  cw_description :: string

datatype blob = ModelBlob "(nat \<times> (real list \<Rightarrow> real)) option" | ScalerBlob scaler_t

text \<open>
  Everything outside the object that its methods read or change: the value
  \<^verbatim>\<open>datetime.now()\<close> returns, the weather service (for a request URL, either the
  five values read from the reply or the failure of the request, of its decoding or of
  one of the reads), numpy's global random generator (the standard normal variates it
  will deliver, and how many have been drawn), and the files written by \<^verbatim>\<open>joblib\<close>.
\<close>

record world =
  clock :: datetime
  service :: "string \<Rightarrow> error + current_weather"
  variates :: "nat \<Rightarrow> real"
  drawn :: nat
  files :: "string \<Rightarrow> blob option"

text \<open>\<^verbatim>\<open>get_current_weather\<close>\<close>

definition get_current_weather :: "world \<Rightarrow> weather_predictor \<Rightarrow> string \<Rightarrow> error + current_weather" where
  "get_current_weather w self city =
     (let url = ''https://api.openweathermap.org/data/2.5/weather?q='' @ city
                @ ''&appid='' @ api_key self @ ''&units=metric''
      in service w url)"

text \<open>\<^verbatim>\<open>_get_base_temperature\<close>: the bare \<^verbatim>\<open>except\<close> catches every exception.\<close>

definition get_base_temperature :: "world \<Rightarrow> weather_predictor \<Rightarrow> string \<Rightarrow> real" where
  "get_base_temperature w self city =
     (case get_current_weather w self city of
        Inr current \<Rightarrow> cw_temp current
      | Inl e \<Rightarrow> 25)"

subsection \<open>The forecaster\<close>

record forecast =
  date :: string
  temperature :: real
  humidity :: real
  event :: "string option"

text \<open>
  \<^verbatim>\<open>round(x, 1)\<close> on a \<^verbatim>\<open>float64\<close>: scale, round to the nearest integer with ties
  to the even one, scale back.
\<close>

definition round_half_even :: "real \<Rightarrow> int" where
  "round_half_even x =
     (let f = \<lfloor>x\<rfloor>; r = x - of_int f
      in if r < 1 / 2 then f else if r > 1 / 2 then f + 1
         else if even f then f else f + 1)"

definition py_round :: "real \<Rightarrow> nat \<Rightarrow> real" where
  "py_round x ndigits = of_int (round_half_even (x * 10 ^ ndigits)) / 10 ^ ndigits"

text \<open>\<^verbatim>\<open>range(n)\<close>\<close>

definition py_range :: "int \<Rightarrow> int list" where
  "py_range n = map int [0..<nat n]"

text \<open>
  The body of the loop of \<^verbatim>\<open>predict_weather\<close> for one \<^verbatim>\<open>i\<close>: it returns the
  list \<^verbatim>\<open>predictions\<close> as the iteration leaves it, or the exception it raises.
\<close>

definition predict_step ::
  "weather_predictor \<Rightarrow> datetime \<Rightarrow> int \<Rightarrow> forecast list \<Rightarrow> error + forecast list" where
  "predict_step self current_date i predictions =
     (case mk_timedelta 0 i of Inl e \<Rightarrow> Inl e | Inr td \<Rightarrow>
     (case datetime_add current_date td of Inl e \<Rightarrow> Inl e | Inr future_date \<Rightarrow>
      let features = create_features future_date in
     (case transform (scaler self) features of Inl e \<Rightarrow> Inl e | Inr features_scaled \<Rightarrow>
     (case regressor_predict (rf_fitted (temp_model self)) features_scaled of
        Inl e \<Rightarrow> Inl e | Inr temp_pred \<Rightarrow>
     (case regressor_predict (gb_fitted (humidity_model self)) features_scaled of
        Inl e \<Rightarrow> Inl e | Inr humidity_pred \<Rightarrow>
      let event = predict_weather_event temp_pred humidity_pred in
      if i mod 24 = 0
      then Inr (predictions @
                [\<lparr> date = strftime_ymd future_date,
                    temperature = py_round (temp_pred - 3) 1,
                    humidity = py_round humidity_pred 1,
                    event = event \<rparr>])
      else Inr predictions)))))"

fun predict_loop ::
  "weather_predictor \<Rightarrow> datetime \<Rightarrow> int list \<Rightarrow> forecast list \<Rightarrow> error + forecast list" where
  "predict_loop self current_date [] predictions = Inr predictions"
| "predict_loop self current_date (i # rest) predictions =
     (case predict_step self current_date i predictions of
        Inl e \<Rightarrow> Inl e
      | Inr predictions' \<Rightarrow> predict_loop self current_date rest predictions')"

text \<open>
  \<^verbatim>\<open>predict_weather\<close>. The method changes nothing outside itself: the world it
  leaves is the world it found.
\<close>

definition predict_weather ::
  "world \<Rightarrow> weather_predictor \<Rightarrow> string \<Rightarrow> int \<Rightarrow> (error + forecast list) \<times> world" where
  "predict_weather w self city ndays =
     (case get_current_weather w self city of
        Inl e \<Rightarrow> (Inl e, w)
      | Inr current_weather \<Rightarrow>
          (predict_loop self (clock w) (py_range (ndays * 24)) [], w))"

text \<open>
  The state after a successful training: scaler and both regressors fitted on the seven
  features of the encoder.
\<close>

definition scaler_width :: "scaler_t \<Rightarrow> nat option" where
  "scaler_width sc = (case sc of ScalerUnfitted \<Rightarrow> None | ScalerFitted ps \<Rightarrow> Some (length ps))"

definition trained :: "weather_predictor \<Rightarrow> bool" where
  "trained self =
     (scaler_width (scaler self) = Some 7
      \<and> map_option fst (rf_fitted (temp_model self)) = Some 7
      \<and> map_option fst (gb_fitted (humidity_model self)) = Some 7)"

text \<open>
  The raw predictions of the two models for a timestamp, and the record the forecaster
  builds from them: what one iteration of the loop computes before it decides whether
  to emit.
\<close>

definition raw_prediction :: "weather_predictor \<Rightarrow> datetime \<Rightarrow> error + real \<times> real" where
  "raw_prediction self d =
     (case transform (scaler self) (create_features d) of Inl e \<Rightarrow> Inl e | Inr fs \<Rightarrow>
     (case regressor_predict (rf_fitted (temp_model self)) fs of Inl e \<Rightarrow> Inl e | Inr t \<Rightarrow>
     (case regressor_predict (gb_fitted (humidity_model self)) fs of Inl e \<Rightarrow> Inl e | Inr h \<Rightarrow>
      Inr (t, h))))"

definition future :: "datetime \<Rightarrow> int \<Rightarrow> error + datetime" where
  "future current_date i =
     (case mk_timedelta 0 i of Inl e \<Rightarrow> Inl e | Inr td \<Rightarrow> datetime_add current_date td)"

definition emit :: "datetime \<Rightarrow> real \<times> real \<Rightarrow> forecast" where
  "emit d p =
     \<lparr> date = strftime_ymd d,
       temperature = py_round (fst p - 3) 1,
       humidity = py_round (snd p) 1,
       event = predict_weather_event (fst p) (snd p) \<rparr>"

definition record_at :: "weather_predictor \<Rightarrow> datetime \<Rightarrow> int \<Rightarrow> error + forecast" where
  "record_at self current_date i =
     (case future current_date i of Inl e \<Rightarrow> Inl e | Inr d \<Rightarrow>
     (case raw_prediction self d of Inl e \<Rightarrow> Inl e | Inr p \<Rightarrow> Inr (emit d p)))"

subsection \<open>The synthesizer\<close>

text \<open>
  \<^verbatim>\<open>np.random.normal(loc, scale)\<close> draws the next standard normal variate of the
  global generator and returns \<open>loc + scale * z\<close>. \<^verbatim>\<open>np.clip(a, a_min, a_max)\<close> is
  \<^verbatim>\<open>minimum(a_max, maximum(a, a_min))\<close>.
\<close>

definition normal :: "real \<Rightarrow> real \<Rightarrow> world \<Rightarrow> real \<times> world" where
  "normal loc sc w = (loc + sc * variates w (drawn w), w\<lparr>drawn := Suc (drawn w)\<rparr>)"

definition clip :: "real \<Rightarrow> real \<Rightarrow> real \<Rightarrow> real" where
  "clip a a_min a_max = min a_max (max a a_min)"

text \<open>
  \<^verbatim>\<open>timedelta.__neg__\<close> and \<^verbatim>\<open>datetime.__sub__\<close> for a \<^verbatim>\<open>timedelta\<close>: the
  difference is the sum with the negated, normalised \<^verbatim>\<open>timedelta\<close>.
\<close>

definition timedelta_neg :: "timedelta \<Rightarrow> error + timedelta" where
  "timedelta_neg td =
     (let us = - microseconds td;
          s = - seconds td + us div 1000000;
          d = - days td + s div 86400
      in if \<bar>d\<bar> > 999999999 then Inl OverflowError
         else Inr \<lparr>days = d, seconds = s mod 86400, microseconds = us mod 1000000\<rparr>)"

definition datetime_sub :: "datetime \<Rightarrow> timedelta \<Rightarrow> error + datetime" where
  "datetime_sub d td =
     (case timedelta_neg td of Inl e \<Rightarrow> Inl e | Inr n \<Rightarrow> datetime_add d n)"

text \<open>
  \<^verbatim>\<open>pd.date_range(start, end, freq='H')\<close>. pandas keeps a timestamp as a signed
  64-bit count of nanoseconds since 1970-01-01 00:00:00 (its \<^verbatim>\<open>value\<close>), the least
  64-bit number being set aside for \<^verbatim>\<open>NaT\<close>; a \<^verbatim>\<open>datetime\<close> whose count does
  not fit (one before \<^verbatim>\<open>Timestamp.min\<close>, 1677-09-21 00:12:43.145224193, or after
  \<^verbatim>\<open>Timestamp.max\<close>, 2262-04-11 23:47:16.854775807) makes the conversion of that end
  point raise \<^verbatim>\<open>OutOfBoundsDatetime\<close>. Otherwise the result holds the timestamps
  \<open>start + k\<close> hours, for \<open>k = 0, 1, ...\<close>, that are not after \<open>end\<close>.
\<close>

definition total_us :: "datetime \<Rightarrow> int" where
  "total_us d =
     (((ordinal d * 24 + hour d) * 60 + minute d) * 60 + second d) * 1000000 + microsecond d"

definition timestamp_value :: "datetime \<Rightarrow> int" where
  "timestamp_value d = (total_us d - 719163 * 86400000000) * 1000"

definition in_bounds :: "datetime \<Rightarrow> bool" where
  "in_bounds d =
     (- 9223372036854775807 \<le> timestamp_value d \<and> timestamp_value d \<le> 9223372036854775807)"

definition shift_hours :: "datetime \<Rightarrow> int \<Rightarrow> datetime" where
  "shift_hours d k =
     d\<lparr>ordinal := ordinal d + (hour d + k) div 24, hour := (hour d + k) mod 24\<rparr>"

definition date_range :: "datetime \<Rightarrow> datetime \<Rightarrow> error + datetime list" where
  "date_range start_date end_date =
     (if \<not> in_bounds start_date \<or> \<not> in_bounds end_date then Inl OutOfBoundsDatetime
      else Inr (map (shift_hours start_date)
                  [0..(total_us end_date - total_us start_date) div 3600000000]))"

text \<open>A row of the data frame: the columns \<^verbatim>\<open>feature_0\<close> ... are kept as one list.\<close>

record observation =
  obs_date :: datetime
  obs_temperature :: real
  obs_humidity :: real
  obs_features :: "real list"

text \<open>
  The body of the loop of \<^verbatim>\<open>get_historical_data\<close> for one timestamp: the row it
  appends, and the world after its two draws.
\<close>

definition synthesize_row :: "real \<Rightarrow> datetime \<Rightarrow> world \<Rightarrow> observation \<times> world" where
  "synthesize_row base_temp d w =
     (let season_factor = sin (2 * pi * of_int (month d - 1) / 12);
          daily_factor = sin (2 * pi * of_int (hour d) / 24);
          (noise_t, w1) = normal 0 1 w;
          temp = base_temp + 5 * season_factor + 3 * daily_factor + noise_t;
          (noise_h, w2) = normal 0 5 w1;
          humidity0 = 60 - (temp - base_temp) + noise_h;
          humidity1 = clip humidity0 30 90;
          features = create_features d
      in (\<lparr>obs_date = d, obs_temperature = temp, obs_humidity = humidity1,
            obs_features = features\<rparr>, w2))"

fun synthesize_loop ::
  "real \<Rightarrow> datetime list \<Rightarrow> observation list \<Rightarrow> world \<Rightarrow> observation list \<times> world" where
  "synthesize_loop base_temp [] data w = (data, w)"
| "synthesize_loop base_temp (d # ds) data w =
     (case synthesize_row base_temp d w of
        (row, w') \<Rightarrow> synthesize_loop base_temp ds (data @ [row]) w')"

text \<open>\<^verbatim>\<open>get_historical_data\<close>\<close>

definition get_historical_data ::
  "world \<Rightarrow> weather_predictor \<Rightarrow> string \<Rightarrow> (error + observation list) \<times> world" where
  "get_historical_data w self city =
     (let end_date = clock w in
      case mk_timedelta 365 0 of Inl e \<Rightarrow> (Inl e, w) | Inr td \<Rightarrow>
     (case datetime_sub end_date td of Inl e \<Rightarrow> (Inl e, w) | Inr start_date \<Rightarrow>
     (case date_range start_date end_date of Inl e \<Rightarrow> (Inl e, w) | Inr dates \<Rightarrow>
      let base_temp = get_base_temperature w self city
      in (case synthesize_loop base_temp dates [] w of (data, w') \<Rightarrow> (Inr data, w')))))"

text \<open>
  The synthesizer as a function of the base temperature (the contract of the
  specification): the same computation with the base temperature given. The timestamps
  of the year are computed from the clock alone, before the base temperature is looked
  up.
\<close>

definition history_dates :: "datetime \<Rightarrow> error + datetime list" where
  "history_dates end_date =
     (case mk_timedelta 365 0 of Inl e \<Rightarrow> Inl e | Inr td \<Rightarrow>
     (case datetime_sub end_date td of Inl e \<Rightarrow> Inl e | Inr start_date \<Rightarrow>
      date_range start_date end_date))"

definition synthesize :: "real \<Rightarrow> world \<Rightarrow> (error + observation list) \<times> world" where
  "synthesize base_temp w =
     (case history_dates (clock w) of Inl e \<Rightarrow> (Inl e, w) | Inr dates \<Rightarrow>
     (case synthesize_loop base_temp dates [] w of (data, w') \<Rightarrow> (Inr data, w')))"

subsection \<open>The trainer\<close>

text \<open>
  The functions of scikit-learn and numpy that the trainer calls and the model does not
  define: the permutation \<^verbatim>\<open>RandomState(seed).permutation(n)\<close> behind
  \<^verbatim>\<open>train_test_split\<close>, and the regression function that fitting a random forest
  or a gradient boosting regressor with given hyperparameters and seed produces from a
  training set. Each is a function of its arguments: the program passes
  \<^verbatim>\<open>random_state=42\<close> everywhere, so no call draws on the global generator.
\<close>

record sklearn =
  permutation :: "nat \<Rightarrow> nat \<Rightarrow> nat list"
  random_forest :: "nat \<Rightarrow> nat \<Rightarrow> nat \<Rightarrow> real list list \<Rightarrow> real list \<Rightarrow> real list \<Rightarrow> real"
  gradient_boosting :: "nat \<Rightarrow> real \<Rightarrow> nat \<Rightarrow> real list list \<Rightarrow> real list \<Rightarrow> real list \<Rightarrow> real"

text \<open>
  \<^verbatim>\<open>StandardScaler.fit\<close>: mean and standard deviation of every column, a zero
  deviation replaced by 1; an empty or ragged matrix is refused.
\<close>

definition column_stats :: "real list \<Rightarrow> real \<times> real" where
  "column_stats col =
     (let n = real (length col);
          m = sum_list col / n;
          var = sum_list (map (\<lambda>v. (v - m)\<^sup>2) col) / n;
          s = sqrt var
      in (m, if s = 0 then 1 else s))"

definition scaler_fit :: "real list list \<Rightarrow> error + scaler_t" where
  "scaler_fit X =
     (if X = [] then Inl ValueError
      else let width = length (hd X)
           in if width = 0 \<or> \<not> list_all (\<lambda>row. length row = width) X then Inl ValueError
              else Inr (ScalerFitted
                         (map (\<lambda>j. column_stats (map (\<lambda>row. row ! j) X)) [0..<width])))"

fun transform_rows :: "scaler_t \<Rightarrow> real list list \<Rightarrow> error + real list list" where
  "transform_rows sc [] = Inr []"
| "transform_rows sc (x # xs) =
     (case transform sc x of Inl e \<Rightarrow> Inl e | Inr y \<Rightarrow>
     (case transform_rows sc xs of Inl e \<Rightarrow> Inl e | Inr ys \<Rightarrow> Inr (y # ys)))"

definition fit_transform :: "real list list \<Rightarrow> error + scaler_t \<times> real list list" where
  "fit_transform X =
     (case scaler_fit X of Inl e \<Rightarrow> Inl e | Inr sc \<Rightarrow>
     (case transform_rows sc X of Inl e \<Rightarrow> Inl e | Inr X_scaled \<Rightarrow> Inr (sc, X_scaled)))"

text \<open>
  \<^verbatim>\<open>train_test_split(X, y, test_size=t, random_state=seed)\<close>: the index sets come
  from the number of samples, the ratio and the seed alone (\<^verbatim>\<open>ShuffleSplit\<close>: the
  first \<open>ceil(t * n)\<close> entries of the permutation are the test rows, the rest the
  training rows), and every array is then indexed with them.
\<close>

definition split_indices :: "sklearn \<Rightarrow> nat \<Rightarrow> real \<Rightarrow> nat \<Rightarrow> error + nat list \<times> nat list" where
  "split_indices lib n_samples test_size random_state =
     (if n_samples = 0 \<or> test_size \<le> 0 \<or> test_size \<ge> 1 then Inl ValueError
      else let n_test = \<lceil>test_size * real n_samples\<rceil>;
               n_train = int n_samples - n_test
           in if n_train \<le> 0 then Inl ValueError
              else let p = permutation lib random_state n_samples;
                       ind_test = take (nat n_test) p;
                       ind_train = take (nat n_train) (drop (nat n_test) p)
                   in Inr (ind_train, ind_test))"

definition take_rows :: "'a list \<Rightarrow> nat list \<Rightarrow> error + 'a list" where
  "take_rows xs idx =
     (if list_all (\<lambda>i. i < length xs) idx then Inr (map ((!) xs) idx) else Inl IndexError)"

definition train_test_split ::
  "sklearn \<Rightarrow> 'a list \<Rightarrow> 'b list \<Rightarrow> real \<Rightarrow> nat \<Rightarrow> error + 'a list \<times> 'a list \<times> 'b list \<times> 'b list" where
  "train_test_split lib X y test_size random_state =
     (if length y \<noteq> length X then Inl ValueError
      else case split_indices lib (length X) test_size random_state of
        Inl e \<Rightarrow> Inl e
      | Inr (train, test) \<Rightarrow>
     (case take_rows X train of Inl e \<Rightarrow> Inl e | Inr X_train \<Rightarrow>
     (case take_rows X test of Inl e \<Rightarrow> Inl e | Inr X_test \<Rightarrow>
     (case take_rows y train of Inl e \<Rightarrow> Inl e | Inr y_train \<Rightarrow>
     (case take_rows y test of Inl e \<Rightarrow> Inl e | Inr y_test \<Rightarrow>
      Inr (X_train, X_test, y_train, y_test))))))"

text \<open>\<^verbatim>\<open>fit\<close>, \<^verbatim>\<open>predict\<close> on a matrix, and \<^verbatim>\<open>score\<close> (the coefficient of determination).\<close>

definition rf_fit :: "sklearn \<Rightarrow> rf_regressor \<Rightarrow> real list list \<Rightarrow> real list \<Rightarrow> error + rf_regressor" where
  "rf_fit lib m X y =
     (if X = [] \<or> length y \<noteq> length X then Inl ValueError
      else Inr (m\<lparr>rf_fitted :=
                  Some (length (hd X),
                        random_forest lib (rf_n_estimators m) (rf_max_depth m)
                          (rf_random_state m) X y)\<rparr>))"

definition gb_fit :: "sklearn \<Rightarrow> gb_regressor \<Rightarrow> real list list \<Rightarrow> real list \<Rightarrow> error + gb_regressor" where
  "gb_fit lib m X y =
     (if X = [] \<or> length y \<noteq> length X then Inl ValueError
      else Inr (m\<lparr>gb_fitted :=
                  Some (length (hd X),
                        gradient_boosting lib (gb_n_estimators m) (gb_learning_rate m)
                          (gb_random_state m) X y)\<rparr>))"

fun predict_rows :: "(nat \<times> (real list \<Rightarrow> real)) option \<Rightarrow> real list list \<Rightarrow> error + real list" where
  "predict_rows fitted [] = Inr []"
| "predict_rows fitted (x # xs) =
     (case regressor_predict fitted x of Inl e \<Rightarrow> Inl e | Inr y \<Rightarrow>
     (case predict_rows fitted xs of Inl e \<Rightarrow> Inl e | Inr ys \<Rightarrow> Inr (y # ys)))"

definition r2_score :: "real list \<Rightarrow> real list \<Rightarrow> real" where
  "r2_score y_true y_pred =
     (let u = sum_list (map (\<lambda>(t, p). (t - p)\<^sup>2) (zip y_true y_pred));
          m = sum_list y_true / real (length y_true);
          v = sum_list (map (\<lambda>t. (t - m)\<^sup>2) y_true)
      in if v = 0 then (if u = 0 then 1 else 0) else 1 - u / v)"

definition rf_score :: "rf_regressor \<Rightarrow> real list list \<Rightarrow> real list \<Rightarrow> error + real" where
  "rf_score m X y =
     (case predict_rows (rf_fitted m) X of Inl e \<Rightarrow> Inl e | Inr y_pred \<Rightarrow> Inr (r2_score y y_pred))"

text \<open>
  \<^verbatim>\<open>train_model\<close>. The method changes the predictor (scaler, then the two models) and
  the files; an exception leaves the changes made before it.
\<close>

definition train_model ::
  "sklearn \<Rightarrow> world \<Rightarrow> weather_predictor \<Rightarrow> string \<Rightarrow> (error + real) \<times> world \<times> weather_predictor" where
  "train_model lib w self city =
     (case get_historical_data w self city of
        (Inl e, w1) \<Rightarrow> (Inl e, w1, self)
      | (Inr df, w1) \<Rightarrow>
      let X = map obs_features df;
          y_temp = map obs_temperature df;
          y_humidity = map obs_humidity df
      in
     (case fit_transform X of Inl e \<Rightarrow> (Inl e, w1, self) | Inr (sc, X_scaled) \<Rightarrow>
      let self1 = self\<lparr>scaler := sc\<rparr> in
     (case train_test_split lib X_scaled y_temp (1 / 5) 42 of
        Inl e \<Rightarrow> (Inl e, w1, self1)
      | Inr (X_train, X_test, y_temp_train, y_temp_test) \<Rightarrow>
     (case train_test_split lib X_scaled y_humidity (1 / 5) 42 of
        Inl e \<Rightarrow> (Inl e, w1, self1)
      | Inr (X_train2, X_test2, y_humidity_train, y_humidity_test) \<Rightarrow>
     (case rf_fit lib (temp_model self1) X_train y_temp_train of
        Inl e \<Rightarrow> (Inl e, w1, self1)
      | Inr tm \<Rightarrow>
      let self2 = self1\<lparr>temp_model := tm\<rparr> in
     (case gb_fit lib (humidity_model self2) X_train y_humidity_train of
        Inl e \<Rightarrow> (Inl e, w1, self2)
      | Inr hm \<Rightarrow>
      let self3 = self2\<lparr>humidity_model := hm\<rparr>;
          w2 = w1\<lparr>files := (files w1)
                  (''temp_model.joblib'' \<mapsto> ModelBlob (rf_fitted tm),
                   ''humidity_model.joblib'' \<mapsto> ModelBlob (gb_fitted hm),
                   ''scaler.joblib'' \<mapsto> ScalerBlob sc)\<rparr>
      in
     (case rf_score tm X_test y_temp_test of
        Inl e \<Rightarrow> (Inl e, w2, self3)
      | Inr score \<Rightarrow> (Inr score, w2, self3))))))))"

text \<open>
  The joint-split design the specification allows instead: one call of
  \<^verbatim>\<open>train_test_split\<close> on the feature matrix and both targets, and the trainer
  built on it. Everything else is as in \<open>train_model\<close>.
\<close>

definition train_test_split3 ::
  "sklearn \<Rightarrow> 'a list \<Rightarrow> 'b list \<Rightarrow> 'c list \<Rightarrow> real \<Rightarrow> nat
   \<Rightarrow> error + 'a list \<times> 'a list \<times> 'b list \<times> 'b list \<times> 'c list \<times> 'c list" where
  "train_test_split3 lib X y z test_size random_state =
     (if length y \<noteq> length X \<or> length z \<noteq> length X then Inl ValueError
      else case split_indices lib (length X) test_size random_state of
        Inl e \<Rightarrow> Inl e
      | Inr (train, test) \<Rightarrow>
     (case take_rows X train of Inl e \<Rightarrow> Inl e | Inr X_train \<Rightarrow>
     (case take_rows X test of Inl e \<Rightarrow> Inl e | Inr X_test \<Rightarrow>
     (case take_rows y train of Inl e \<Rightarrow> Inl e | Inr y_train \<Rightarrow>
     (case take_rows y test of Inl e \<Rightarrow> Inl e | Inr y_test \<Rightarrow>
     (case take_rows z train of Inl e \<Rightarrow> Inl e | Inr z_train \<Rightarrow>
     (case take_rows z test of Inl e \<Rightarrow> Inl e | Inr z_test \<Rightarrow>
      Inr (X_train, X_test, y_train, y_test, z_train, z_test))))))))"

definition train_model_joint ::
  "sklearn \<Rightarrow> world \<Rightarrow> weather_predictor \<Rightarrow> string \<Rightarrow> (error + real) \<times> world \<times> weather_predictor" where
  "train_model_joint lib w self city =
     (case get_historical_data w self city of
        (Inl e, w1) \<Rightarrow> (Inl e, w1, self)
      | (Inr df, w1) \<Rightarrow>
      let X = map obs_features df;
          y_temp = map obs_temperature df;
          y_humidity = map obs_humidity df
      in
     (case fit_transform X of Inl e \<Rightarrow> (Inl e, w1, self) | Inr (sc, X_scaled) \<Rightarrow>
      let self1 = self\<lparr>scaler := sc\<rparr> in
     (case train_test_split3 lib X_scaled y_temp y_humidity (1 / 5) 42 of
        Inl e \<Rightarrow> (Inl e, w1, self1)
      | Inr (X_train, X_test, y_temp_train, y_temp_test, y_humidity_train, y_humidity_test) \<Rightarrow>
     (case rf_fit lib (temp_model self1) X_train y_temp_train of
        Inl e \<Rightarrow> (Inl e, w1, self1)
      | Inr tm \<Rightarrow>
      let self2 = self1\<lparr>temp_model := tm\<rparr> in
     (case gb_fit lib (humidity_model self2) X_train y_humidity_train of
        Inl e \<Rightarrow> (Inl e, w1, self2)
      | Inr hm \<Rightarrow>
      let self3 = self2\<lparr>humidity_model := hm\<rparr>;
          w2 = w1\<lparr>files := (files w1)
                  (''temp_model.joblib'' \<mapsto> ModelBlob (rf_fitted tm),
                   ''humidity_model.joblib'' \<mapsto> ModelBlob (gb_fitted hm),
                   ''scaler.joblib'' \<mapsto> ScalerBlob sc)\<rparr>
      in
     (case rf_score tm X_test y_temp_test of
        Inl e \<Rightarrow> (Inl e, w2, self3)
      | Inr score \<Rightarrow> (Inr score, w2, self3)))))))"

subsection \<open>Sample values\<close>

text \<open>
  A clock (2026-11-04 09:30:15), the last evening the calendar can hold, a reply of the
  weather service, a world in which the service answers and one in which it cannot be
  reached, and a predictor whose scaler and regressors are fitted.
\<close>

definition sample_clock :: datetime where
  "sample_clock = \<lparr>ordinal = 739924, hour = 9, minute = 30, second = 15, microsecond = 0\<rparr>"

definition last_evening :: datetime where
  "last_evening = \<lparr>ordinal = 3652059, hour = 23, minute = 30, second = 0, microsecond = 0\<rparr>"

definition sample_weather :: current_weather where
  "sample_weather = \<lparr>cw_temp = 31, cw_humidity = 40, cw_pressure = 1008, cw_wind_speed = 3,
                      cw_description = ''haze''\<rparr>"

definition online :: world where
  "online = \<lparr>clock = sample_clock, service = (\<lambda>url. Inr sample_weather),
             variates = (\<lambda>k. if even k then 1 else - 8), drawn = 0, files = (\<lambda>name. None)\<rparr>"

definition offline :: world where
  "offline = online\<lparr>service := (\<lambda>url. Inl ExternalLookupFailure)\<rparr>"

definition sample_trained :: weather_predictor where
  "sample_trained =
     \<lparr> api_key = ''key'',
       temp_model = \<lparr>rf_n_estimators = 200, rf_max_depth = 20, rf_random_state = 42,
                      rf_fitted = Some (7, \<lambda>x. 31 + x ! 2 / 10)\<rparr>,
       humidity_model = \<lparr>gb_n_estimators = 150, gb_learning_rate = 1 / 10,
                          gb_random_state = 42, gb_fitted = Some (7, \<lambda>x. 7526 / 100)\<rparr>,
       scaler = ScalerFitted [(6, 3), (15, 9), (0, 1), (0, 1), (0, 1), (0, 1), (0, 1)] \<rparr>"

text \<open>
  A world whose generator delivers, for the humidity of the first three observations,
  the variates \<open>-8\<close>, \<open>8\<close> and \<open>0\<close>; and the first day of year 3000, which
  \<^verbatim>\<open>datetime\<close> can hold and pandas cannot.
\<close>

definition noisy :: world where
  "noisy = online\<lparr>variates := (\<lambda>k. if even k then 1 else if k = 1 then - 8
                                     else if k = 3 then 8 else 0)\<rparr>"


text \<open>A library for examples: the permutation that reverses, and constant regressors.\<close>

definition sample_lib :: sklearn where
  "sample_lib =
     \<lparr> permutation = (\<lambda>seed n. rev [0..<n]),
       random_forest = (\<lambda>n_estimators max_depth seed X y x. 20),
       gradient_boosting = (\<lambda>n_estimators learning_rate seed X y x. 50) \<rparr>"

section \<open>Auxiliary facts\<close>

subsection \<open>The calendar\<close>

text \<open>The split of a day number into cycles of 400, 100, 4 and 1 years.\<close>

lemma ord_split:
  fixes n :: int
  assumes "0 \<le> n"
  defines "a \<equiv> n div 146097" and "r1 \<equiv> n mod 146097"
  defines "b \<equiv> r1 div 36524" and "r2 \<equiv> r1 mod 36524"
  defines "c \<equiv> r2 div 1461" and "r3 \<equiv> r2 mod 1461"
  defines "e \<equiv> r3 div 365" and "r \<equiv> r3 mod 365"
  shows "n = 146097 * a + 36524 * b + 1461 * c + 365 * e + r"
    and "0 \<le> a" "0 \<le> b" "b \<le> 4" "0 \<le> c" "c \<le> 24" "0 \<le> e" "e \<le> 4" "0 \<le> r" "r < 365"
    and "b = 4 \<Longrightarrow> c = 0 \<and> e = 0 \<and> r = 0"
    and "e = 4 \<Longrightarrow> r = 0"
    and "c = 24 \<Longrightarrow> e \<le> 3"
proof -
  have n: "n = 146097 * a + r1" unfolding a_def r1_def by simp
  have r1: "0 \<le> r1" "r1 < 146097" unfolding r1_def by simp_all
  have e1: "r1 = 36524 * b + r2" unfolding b_def r2_def by simp
  have r2: "0 \<le> r2" "r2 < 36524" unfolding r2_def by simp_all
  have e2: "r2 = 1461 * c + r3" unfolding c_def r3_def by simp
  have r3: "0 \<le> r3" "r3 < 1461" unfolding r3_def by simp_all
  have e3: "r3 = 365 * e + r" unfolding e_def r_def by simp
  have r: "0 \<le> r" "r < 365" unfolding r_def by simp_all
  show "n = 146097 * a + 36524 * b + 1461 * c + 365 * e + r" using n e1 e2 e3 by linarith
  show "0 \<le> a" using n r1 assms(1) by linarith
  show b0: "0 \<le> b" using e1 r1 r2 by linarith
  show b4: "b \<le> 4" using e1 r1 r2 by linarith
  show c0: "0 \<le> c" using e2 r2 r3 by linarith
  show "c \<le> 24" using e2 r2 r3 by linarith
  show e0: "0 \<le> e" using e3 r3 r by linarith
  show "e \<le> 4" using e3 r3 r by linarith
  show "0 \<le> r" "r < 365" using r by simp_all
  show "c = 0 \<and> e = 0 \<and> r = 0" if "b = 4"
    using that e1 e2 e3 r1 r2 r3 r c0 e0 by linarith
  show "r = 0" if "e = 4" using that e3 r3 r by linarith
  show "e \<le> 3" if "c = 24" using that e2 e3 r2 r3 r by linarith
qed

lemma dby_cycles:
  fixes a b c e :: int
  assumes "0 \<le> b" "b \<le> 3" "0 \<le> c" "c \<le> 24" "0 \<le> e" "e \<le> 3"
  shows "days_before_year (400 * a + 100 * b + 4 * c + e + 1)
           = 146097 * a + 36524 * b + 1461 * c + 365 * e"
proof -
  define Y where "Y = 400 * a + 100 * b + 4 * c + e"
  have "Y = e + 4 * (100 * a + 25 * b + c)" by (simp add: Y_def)
  then have "Y div 4 = e div 4 + (100 * a + 25 * b + c)" by simp
  then have d4: "Y div 4 = 100 * a + 25 * b + c" using assms(5,6) by simp
  have "Y = (4 * c + e) + 100 * (4 * a + b)" by (simp add: Y_def)
  then have "Y div 100 = (4 * c + e) div 100 + (4 * a + b)" by simp
  moreover have "(4 * c + e) div 100 = 0"
    by (rule div_pos_pos_trivial) (use assms in linarith)+
  ultimately have d100: "Y div 100 = 4 * a + b" by simp
  have "Y = (100 * b + 4 * c + e) + 400 * a" by (simp add: Y_def)
  then have "Y div 400 = (100 * b + 4 * c + e) div 400 + a" by simp
  moreover have "(100 * b + 4 * c + e) div 400 = 0"
    by (rule div_pos_pos_trivial) (use assms in linarith)+
  ultimately have d400: "Y div 400 = a" by simp
  have "days_before_year (Y + 1) = Y * 365 + Y div 4 - Y div 100 + Y div 400"
    by (simp add: days_before_year_def)
  then show ?thesis unfolding d4 d100 d400 by (simp add: Y_def)
qed

lemma mod_zero_top:
  fixes x k :: int
  assumes "0 < x" "x \<le> k"
  shows "x mod k = 0 \<longleftrightarrow> x = k"
proof (cases "x = k")
  case True
  then show ?thesis by simp
next
  case False
  then have "x < k" using assms(2) by simp
  then have "x mod k = x" using assms(1) by simp
  then show ?thesis using False assms(1) by simp
qed

lemma is_leap_cycles:
  fixes a b c e :: int
  assumes "0 \<le> b" "b \<le> 3" "0 \<le> c" "c \<le> 24" "0 \<le> e" "e \<le> 3"
  shows "is_leap (400 * a + 100 * b + 4 * c + e + 1) \<longleftrightarrow> e = 3 \<and> (c \<noteq> 24 \<or> b = 3)"
proof -
  define y where "y = 400 * a + 100 * b + 4 * c + e + 1"
  have "y = (e + 1) + 4 * (100 * a + 25 * b + c)" by (simp add: y_def)
  then have "y mod 4 = (e + 1) mod 4" by (simp only: mod_mult_self2)
  moreover have "(e + 1) mod 4 = 0 \<longleftrightarrow> e + 1 = 4"
    by (rule mod_zero_top) (use assms in linarith)+
  ultimately have m4: "y mod 4 = 0 \<longleftrightarrow> e = 3" by auto
  have "y = (4 * c + e + 1) + 100 * (4 * a + b)" by (simp add: y_def)
  then have "y mod 100 = (4 * c + e + 1) mod 100" by (simp only: mod_mult_self2)
  moreover have "(4 * c + e + 1) mod 100 = 0 \<longleftrightarrow> 4 * c + e + 1 = 100"
    by (rule mod_zero_top) (use assms in linarith)+
  ultimately have m100: "y mod 100 = 0 \<longleftrightarrow> 4 * c + e + 1 = 100" by simp
  have "y = (100 * b + 4 * c + e + 1) + 400 * a" by (simp add: y_def)
  then have "y mod 400 = (100 * b + 4 * c + e + 1) mod 400" by (simp only: mod_mult_self2)
  moreover have "(100 * b + 4 * c + e + 1) mod 400 = 0 \<longleftrightarrow> 100 * b + 4 * c + e + 1 = 400"
    by (rule mod_zero_top) (use assms in linarith)+
  ultimately have m400: "y mod 400 = 0 \<longleftrightarrow> 100 * b + 4 * c + e + 1 = 400" by simp
  have "is_leap y \<longleftrightarrow> e = 3 \<and> (4 * c + e + 1 \<noteq> 100 \<or> 100 * b + 4 * c + e + 1 = 400)"
    unfolding is_leap_def m4 m100 m400 ..
  also have "\<dots> \<longleftrightarrow> e = 3 \<and> (c \<noteq> 24 \<or> b = 3)" using assms by auto
  finally show ?thesis unfolding y_def .
qed

lemma month_day_of:
  fixes r :: int and L :: bool
  assumes "0 \<le> r" "r < 365"
    and m_def: "m = (r + 50) div 32"
    and p_def: "p = DAYS_BEFORE_MONTH ! nat m + (if m > 2 \<and> L then 1 else 0)"
    and res_def: "res = (if p > r
      then (m - 1, r - (p - (DAYS_IN_MONTH ! nat (m - 1) + (if m - 1 = 2 \<and> L then 1 else 0))) + 1)
      else (m, r - p + 1))"
  shows "1 \<le> fst res \<and> fst res \<le> 12 \<and> 1 \<le> snd res \<and> snd res \<le> 31
     \<and> DAYS_BEFORE_MONTH ! nat (fst res) + (if fst res > 2 \<and> L then 1 else 0) + snd res = r + 1"
proof -
  have lo: "32 * m \<le> r + 50" and hi: "r + 50 < 32 * m + 32"
    unfolding m_def by linarith+
  have "1 \<le> m" "m \<le> 12" using lo hi assms(1,2) by linarith+
  then consider "m = 1" | "m = 2" | "m = 3" | "m = 4" | "m = 5" | "m = 6" | "m = 7" | "m = 8"
    | "m = 9" | "m = 10" | "m = 11" | "m = 12" by atomize_elim arith
  then show ?thesis
  proof cases
    case 1
    then show ?thesis
      using lo hi assms(1,2) unfolding res_def p_def
      by (cases L) (auto simp: DAYS_BEFORE_MONTH_def DAYS_IN_MONTH_def)
  next
    case 2
    then show ?thesis
      using lo hi assms(1,2) unfolding res_def p_def
      by (cases L) (auto simp: DAYS_BEFORE_MONTH_def DAYS_IN_MONTH_def)
  next
    case 3
    then show ?thesis
      using lo hi assms(1,2) unfolding res_def p_def
      by (cases L) (auto simp: DAYS_BEFORE_MONTH_def DAYS_IN_MONTH_def)
  next
    case 4
    then show ?thesis
      using lo hi assms(1,2) unfolding res_def p_def
      by (cases L) (auto simp: DAYS_BEFORE_MONTH_def DAYS_IN_MONTH_def)
  next
    case 5
    then show ?thesis
      using lo hi assms(1,2) unfolding res_def p_def
      by (cases L) (auto simp: DAYS_BEFORE_MONTH_def DAYS_IN_MONTH_def)
  next
    case 6
    then show ?thesis
      using lo hi assms(1,2) unfolding res_def p_def
      by (cases L) (auto simp: DAYS_BEFORE_MONTH_def DAYS_IN_MONTH_def)
  next
    case 7
    then show ?thesis
      using lo hi assms(1,2) unfolding res_def p_def
      by (cases L) (auto simp: DAYS_BEFORE_MONTH_def DAYS_IN_MONTH_def)
  next
    case 8
    then show ?thesis
      using lo hi assms(1,2) unfolding res_def p_def
      by (cases L) (auto simp: DAYS_BEFORE_MONTH_def DAYS_IN_MONTH_def)
  next
    case 9
    then show ?thesis
      using lo hi assms(1,2) unfolding res_def p_def
      by (cases L) (auto simp: DAYS_BEFORE_MONTH_def DAYS_IN_MONTH_def)
  next
    case 10
    then show ?thesis
      using lo hi assms(1,2) unfolding res_def p_def
      by (cases L) (auto simp: DAYS_BEFORE_MONTH_def DAYS_IN_MONTH_def)
  next
    case 11
    then show ?thesis
      using lo hi assms(1,2) unfolding res_def p_def
      by (cases L) (auto simp: DAYS_BEFORE_MONTH_def DAYS_IN_MONTH_def)
  next
    case 12
    then show ?thesis
      using lo hi assms(1,2) unfolding res_def p_def
      by (cases L) (auto simp: DAYS_BEFORE_MONTH_def DAYS_IN_MONTH_def)
  qed
qed

lemma ord2ymd_special:
  fixes n :: int
  assumes a_def: "a = (n - 1) div 146097"
    and b_def: "b = (n - 1) mod 146097 div 36524"
    and c_def: "c = (n - 1) mod 146097 mod 36524 div 1461"
    and e_def: "e = (n - 1) mod 146097 mod 36524 mod 1461 div 365"
    and sc: "e = 4 \<or> b = 4"
  shows "ord2ymd n = (400 * a + 100 * b + 4 * c + e, 12, 31)"
proof -
  have sc': "(n - 1) mod 146097 mod 36524 mod 1461 div 365 = 4
      \<or> (n - 1) mod 146097 div 36524 = 4"
    using sc unfolding e_def b_def .
  have "ord2ymd n = (a * 400 + 1 + b * 100 + c * 4 + e - 1, 12, 31)"
    unfolding ord2ymd_def Let_def a_def b_def c_def e_def
    by (simp only: if_P[OF sc'])
  then show ?thesis by simp
qed

lemma ord2ymd_general:
  fixes n :: int
  assumes a_def: "a = (n - 1) div 146097"
    and b_def: "b = (n - 1) mod 146097 div 36524"
    and c_def: "c = (n - 1) mod 146097 mod 36524 div 1461"
    and e_def: "e = (n - 1) mod 146097 mod 36524 mod 1461 div 365"
    and r_def: "r = (n - 1) mod 146097 mod 36524 mod 1461 mod 365"
    and L_def: "L = (e = 3 \<and> (c \<noteq> 24 \<or> b = 3))"
    and m_def: "m = (r + 50) div 32"
    and p_def: "p = DAYS_BEFORE_MONTH ! nat m + (if m > 2 \<and> L then 1 else 0)"
    and res_def: "res = (if p > r
      then (m - 1, r - (p - (DAYS_IN_MONTH ! nat (m - 1) + (if m - 1 = 2 \<and> L then 1 else 0))) + 1)
      else (m, r - p + 1))"
    and gc: "\<not> (e = 4 \<or> b = 4)"
  shows "ord2ymd n = (400 * a + 100 * b + 4 * c + e + 1, fst res, snd res)"
proof -
  have gc': "\<not> ((n - 1) mod 146097 mod 36524 mod 1461 div 365 = 4
      \<or> (n - 1) mod 146097 div 36524 = 4)"
    using gc unfolding e_def b_def .
  have "ord2ymd n = (if p > r
      then (a * 400 + 1 + b * 100 + c * 4 + e, m - 1,
            r - (p - (DAYS_IN_MONTH ! nat (m - 1) + (if m - 1 = 2 \<and> L then 1 else 0))) + 1)
      else (a * 400 + 1 + b * 100 + c * 4 + e, m, r - p + 1))"
    unfolding ord2ymd_def Let_def p_def m_def L_def r_def a_def b_def c_def e_def
    by (simp only: if_not_P[OF gc'])
  then show ?thesis unfolding res_def by (cases "p > r") (simp_all add: algebra_simps)
qed

lemma ord2ymd_props:
  assumes "1 \<le> n"
  shows "ymd2ord (ord2ymd n) = n"
    and "1 \<le> fst (ord2ymd n)"
    and "1 \<le> fst (snd (ord2ymd n))" "fst (snd (ord2ymd n)) \<le> 12"
    and "1 \<le> snd (snd (ord2ymd n))" "snd (snd (ord2ymd n)) \<le> 31"
    and "n \<le> MAXORDINAL \<Longrightarrow> fst (ord2ymd n) \<le> 9999"
proof -
  define a where "a = (n - 1) div 146097"
  define b where "b = (n - 1) mod 146097 div 36524"
  define c where "c = (n - 1) mod 146097 mod 36524 div 1461"
  define e where "e = (n - 1) mod 146097 mod 36524 mod 1461 div 365"
  define r where "r = (n - 1) mod 146097 mod 36524 mod 1461 mod 365"
  define Y where "Y = 400 * a + 100 * b + 4 * c + e"
  define L where "L = (e = 3 \<and> (c \<noteq> 24 \<or> b = 3))"
  have n0: "0 \<le> n - 1" using assms by simp
  note sp = ord_split[OF n0, folded a_def b_def c_def e_def r_def]
  have n: "n = 146097 * a + 36524 * b + 1461 * c + 365 * e + r + 1" using sp(1) by simp
  have a0: "0 \<le> a" by (rule sp(2))
  have Y0: "0 \<le> Y" unfolding Y_def using sp(2,3,5,7) by linarith
  have top: "Y \<le> 9998" if m: "n \<le> MAXORDINAL"
  proof -
    have nn: "146097 * a + 36524 * b + 1461 * c + 365 * e + r \<le> 3652058"
      using m n by (simp add: MAXORDINAL_def)
    have a24: "a \<le> 24" using nn sp(3,5,7,9) by linarith
    show ?thesis
    proof (cases "a = 24")
      case False
      then have "a \<le> 23" using a24 by simp
      then show ?thesis unfolding Y_def using sp(4,6,8) by linarith
    next
      case a: True
      have b3: "b \<le> 3" using nn a sp(5,7,9) by linarith
      show ?thesis
      proof (cases "b = 3")
        case False
        then have "b \<le> 2" using b3 by simp
        then show ?thesis unfolding Y_def a using sp(6,8) by linarith
      next
        case b: True
        show ?thesis
        proof (cases "c = 24")
          case False
          then have "c \<le> 23" using sp(6) by simp
          then show ?thesis unfolding Y_def a b using sp(8) by linarith
        next
          case c: True
          have "e \<le> 2" using nn a b c sp(9) by linarith
          then show ?thesis unfolding Y_def a b c by linarith
        qed
      qed
    qed
  qed
  have special: "ymd2ord (ord2ymd n) = n \<and> ord2ymd n = (Y, 12, 31) \<and> 1 \<le> Y"
    if sc: "e = 4 \<or> b = 4"
  proof -
    have o: "ord2ymd n = (Y, 12, 31)"
      unfolding Y_def by (rule ord2ymd_special[OF a_def b_def c_def e_def sc])
    show ?thesis
    proof (cases "b = 4")
      case True
      then have z: "c = 0" "e = 0" "r = 0" using sp(11) by simp_all
      have Yv: "Y = 400 * a + 100 * 3 + 4 * 24 + 3 + 1" by (simp add: Y_def True z)
      have d: "days_before_year Y = 146097 * a + 36524 * 3 + 1461 * 24 + 365 * 3"
        unfolding Yv by (rule dby_cycles) simp_all
      have "is_leap Y \<longleftrightarrow> (3::int) = 3 \<and> ((24::int) \<noteq> 24 \<or> (3::int) = 3)"
        unfolding Yv by (rule is_leap_cycles) simp_all
      then have l: "is_leap Y" by simp
      have "ymd2ord (Y, 12, 31) = n"
        using d l by (simp add: ymd2ord_def days_before_month_def DAYS_BEFORE_MONTH_def n True z)
      moreover have "1 \<le> Y" unfolding Yv using a0 by linarith
      ultimately show ?thesis using o by simp
    next
      case False
      then have e4: "e = 4" and b3: "b \<le> 3" using sc sp(4) by simp_all
      have r0: "r = 0" using sp(12) e4 by simp
      have c23: "c \<le> 23" using sp(13) sp(6) e4 by (cases "c = 24") simp_all
      have Yv: "Y = 400 * a + 100 * b + 4 * c + 3 + 1" by (simp add: Y_def e4)
      have d: "days_before_year Y = 146097 * a + 36524 * b + 1461 * c + 365 * 3"
        unfolding Yv by (rule dby_cycles) (use sp(3,5) b3 c23 in simp_all)
      have "is_leap Y \<longleftrightarrow> (3::int) = 3 \<and> (c \<noteq> 24 \<or> b = 3)"
        unfolding Yv by (rule is_leap_cycles) (use sp(3,5) b3 c23 in simp_all)
      then have l: "is_leap Y" using c23 by simp
      have "ymd2ord (Y, 12, 31) = n"
        using d l by (simp add: ymd2ord_def days_before_month_def DAYS_BEFORE_MONTH_def n e4 r0)
      moreover have "1 \<le> Y" unfolding Yv using a0 sp(3,5) by linarith
      ultimately show ?thesis using o by simp
    qed
  qed
  have general: "ymd2ord (ord2ymd n) = n \<and> fst (ord2ymd n) = Y + 1
      \<and> 1 \<le> fst (snd (ord2ymd n)) \<and> fst (snd (ord2ymd n)) \<le> 12
      \<and> 1 \<le> snd (snd (ord2ymd n)) \<and> snd (snd (ord2ymd n)) \<le> 31"
    if gc: "\<not> (e = 4 \<or> b = 4)"
  proof -
    have b3: "b \<le> 3" and e3: "e \<le> 3" using gc sp(4,8) by simp_all
    define m where "m = (r + 50) div 32"
    define p where "p = DAYS_BEFORE_MONTH ! nat m + (if m > 2 \<and> L then 1 else 0)"
    define res where "res = (if p > r
      then (m - 1, r - (p - (DAYS_IN_MONTH ! nat (m - 1) + (if m - 1 = 2 \<and> L then 1 else 0))) + 1)
      else (m, r - p + 1))"
    note md = month_day_of[OF sp(9,10) m_def p_def res_def]
    have o: "ord2ymd n = (Y + 1, fst res, snd res)"
      unfolding Y_def
      by (rule ord2ymd_general[OF a_def b_def c_def e_def r_def L_def m_def p_def res_def gc])
    have d: "days_before_year (Y + 1) = 146097 * a + 36524 * b + 1461 * c + 365 * e"
      unfolding Y_def by (rule dby_cycles) (use sp(3,5,6,7) b3 e3 in simp_all)
    have l: "is_leap (Y + 1) \<longleftrightarrow> L"
      unfolding Y_def L_def by (rule is_leap_cycles) (use sp(3,5,6,7) b3 e3 in simp_all)
    have "ymd2ord (Y + 1, fst res, snd res)
        = days_before_year (Y + 1)
          + (DAYS_BEFORE_MONTH ! nat (fst res) + (if fst res > 2 \<and> L then 1 else 0)) + snd res"
      by (simp add: ymd2ord_def days_before_month_def l case_prod_beta)
    also have "\<dots> = n" using md d n by linarith
    finally show ?thesis using o md by simp
  qed
  show "ymd2ord (ord2ymd n) = n" using special general by blast
  show "1 \<le> fst (ord2ymd n)"
  proof (cases "e = 4 \<or> b = 4")
    case True
    then show ?thesis using special by simp
  next
    case False
    then show ?thesis using general Y0 by simp
  qed
  show "1 \<le> fst (snd (ord2ymd n))" "fst (snd (ord2ymd n)) \<le> 12"
    "1 \<le> snd (snd (ord2ymd n))" "snd (snd (ord2ymd n)) \<le> 31"
    using special general by (cases "e = 4 \<or> b = 4"; simp)+
  show "fst (ord2ymd n) \<le> 9999" if "n \<le> MAXORDINAL"
  proof (cases "e = 4 \<or> b = 4")
    case True
    then show ?thesis using special top[OF that] by simp
  next
    case False
    then show ?thesis using general top[OF that] by simp
  qed
qed

lemma digit_value_digit: "digit_value (digit n) = n mod 10"
proof -
  define k where "k = n mod 10"
  have "0 \<le> k" "k < 10" unfolding k_def by simp_all
  then consider "k = 0" | "k = 1" | "k = 2" | "k = 3" | "k = 4" | "k = 5" | "k = 6" | "k = 7"
    | "k = 8" | "k = 9" by atomize_elim arith
  then have "digit_value (''0123456789'' ! nat k) = k"
    by cases (simp_all add: digit_value_def)
  then show ?thesis by (simp add: digit_def k_def)
qed

lemma two_digits:
  fixes v :: int
  assumes "0 \<le> v" "v \<le> 99"
  shows "10 * ((v div 10) mod 10) + v mod 10 = v"
proof -
  have "0 \<le> v div 10" "v div 10 < 10" using assms by linarith+
  then have "(v div 10) mod 10 = v div 10" by simp
  then show ?thesis by simp
qed

lemma decimal_value_snoc: "decimal_value (s @ [c]) = 10 * decimal_value s + digit_value c"
  by (simp add: decimal_value_def)

lemma decimal_value_decimal: "decimal_value (decimal n) = int n"
proof (induction n rule: decimal.induct)
  case (1 n)
  show ?case
  proof (cases "n < 10")
    case True
    then have "int n mod 10 = int n" by simp
    then show ?thesis
      using True by (simp add: decimal.simps[of n] decimal_value_def digit_value_digit)
  next
    case False
    have "decimal_value (decimal n) = 10 * decimal_value (decimal (n div 10)) + int n mod 10"
      using False by (simp add: decimal.simps[of n] decimal_value_snoc digit_value_digit)
    also have "\<dots> = 10 * int (n div 10) + int n mod 10" using 1[OF False] by simp
    also have "\<dots> = int n" by (simp add: zdiv_int)
    finally show ?thesis .
  qed
qed

text \<open>From year 1000 on the year has its four digits.\<close>

lemma decimal_four:
  assumes "1000 \<le> n" "n \<le> 9999"
  shows "decimal n = [digit (int n div 1000), digit (int n div 100), digit (int n div 10),
                      digit (int n)]"
proof -
  have a: "\<not> n < 10" "\<not> n div 10 < 10" "\<not> n div 10 div 10 < 10" "n div 10 div 10 div 10 < 10"
    using assms by simp_all
  have d: "int (n div 10) = int n div 10" "int (n div 10 div 10) = int n div 100"
    "int (n div 10 div 10 div 10) = int n div 1000"
    by (simp_all add: zdiv_int zdiv_zmult2_eq)
  show ?thesis
    by (simp add: decimal.simps[of n] decimal.simps[of "n div 10"]
          decimal.simps[of "n div 10 div 10"] decimal.simps[of "n div 10 div 10 div 10"] a d)
qed

lemma parse_strftime:
  assumes "1 \<le> ordinal d" "ordinal d \<le> MAXORDINAL"
  shows "parse_ymd (strftime_ymd d) = Some (ord2ymd (ordinal d))"
proof -
  note p = ord2ymd_props[OF assms(1)]
  have y: "0 \<le> year d" using p(2) by (simp add: year_def)
  have m: "0 \<le> month d" "month d \<le> 99" using p(3,4) by (simp_all add: month_def)
  have dd: "0 \<le> day d" "day d \<le> 99" using p(5,6) by (simp_all add: day_def)
  have "parse_ymd (strftime_ymd d) = Some (year d, month d, day d)"
    using y
    by (simp add: parse_ymd_def strftime_ymd_def Let_def digit_value_digit decimal_value_decimal
          two_digits[OF m] two_digits[OF dd])
  then show ?thesis by (simp add: year_def month_def day_def)
qed

lemma day_number_of_date:
  assumes "1 \<le> ordinal d" "ordinal d \<le> MAXORDINAL"
  shows "map_option ymd2ord (parse_ymd (strftime_ymd d)) = Some (ordinal d)"
  by (simp add: parse_strftime[OF assms] ord2ymd_props(1)[OF assms(1)])

subsection \<open>Date arithmetic\<close>

lemma hms_div: 
  fixes h m s :: int
  assumes "0 \<le> h" "h < 24" "0 \<le> m" "m < 60" "0 \<le> s" "s < 60"
  shows "(h * 3600 + m * 60 + s) div 86400 = 0"
    and "(h * 3600 + m * 60 + s) mod 86400 = h * 3600 + m * 60 + s"
    and "(h * 3600 + m * 60 + s) div 3600 = h"
    and "((h * 3600 + m * 60 + s) mod 3600) div 60 = m"
    and "(h * 3600 + m * 60 + s) mod 60 = s"
proof -
  have b: "0 \<le> h * 3600 + m * 60 + s" "h * 3600 + m * 60 + s < 86400"
    using assms by linarith+
  have c: "0 \<le> m * 60 + s" "m * 60 + s < 3600" using assms by linarith+
  show "(h * 3600 + m * 60 + s) div 86400 = 0" using b by (rule div_pos_pos_trivial)
  show "(h * 3600 + m * 60 + s) mod 86400 = h * 3600 + m * 60 + s"
    using b by (rule mod_pos_pos_trivial)
  have e: "h * 3600 + m * 60 + s = (m * 60 + s) + h * 3600" by simp
  have "((m * 60 + s) + h * 3600) div 3600 = (m * 60 + s) div 3600 + h"
    by simp
  then show "(h * 3600 + m * 60 + s) div 3600 = h"
    unfolding e using div_pos_pos_trivial[OF c] by simp
  have "((m * 60 + s) + h * 3600) mod 3600 = (m * 60 + s) mod 3600"
    by simp
  then have f: "(h * 3600 + m * 60 + s) mod 3600 = m * 60 + s"
    unfolding e using mod_pos_pos_trivial[OF c] by simp
  have "(s + m * 60) div 60 = s div 60 + m" by simp
  then have "(m * 60 + s) div 60 = m" using div_pos_pos_trivial[OF assms(5,6)]
    by (simp add: add.commute)
  then show "((h * 3600 + m * 60 + s) mod 3600) div 60 = m" unfolding f .
  have g: "h * 3600 + m * 60 + s = s + (h * 60 + m) * 60" by (simp add: algebra_simps)
  have "(s + (h * 60 + m) * 60) mod 60 = s mod 60" by (rule mod_mult_self1)
  then show "(h * 3600 + m * 60 + s) mod 60 = s"
    unfolding g using mod_pos_pos_trivial[OF assms(5,6)] by (simp only:)
qed

lemma mk_timedelta_days:
  "\<bar>k\<bar> \<le> 999999999 \<Longrightarrow> mk_timedelta 0 (24 * k) = Inr \<lparr>days = k, seconds = 0, microseconds = 0\<rparr>"
  by (simp add: mk_timedelta_def)

lemma future_day:
  assumes "valid_datetime cur" "0 \<le> k" "ordinal cur + k \<le> MAXORDINAL"
  shows "future cur (24 * k) = Inr (cur\<lparr>ordinal := ordinal cur + k\<rparr>)"
proof -
  have v: "0 \<le> hour cur" "hour cur < 24" "0 \<le> minute cur" "minute cur < 60"
     "0 \<le> second cur" "second cur < 60" "0 \<le> microsecond cur" "microsecond cur < 1000000"
     "1 \<le> ordinal cur"
    using assms(1) by (simp_all add: valid_datetime_def)
  have k: "\<bar>k\<bar> \<le> 999999999" using assms(2,3) v(9) by (simp add: MAXORDINAL_def)
  have us: "microsecond cur div 1000000 = 0" "microsecond cur mod 1000000 = microsecond cur"
    using v(7,8) by simp_all
  show ?thesis
    using assms(2,3) v(9)
    by (simp add: future_def mk_timedelta_days[OF k] datetime_add_def Let_def us
          hms_div[OF v(1-6)])
qed

lemma datetime_add_Inr:
  assumes "dd = ordinal d + days td
      + (hour d * 3600 + minute d * 60 + second d + seconds td
         + (microsecond d + microseconds td) div 1000000) div 86400"
    and "0 < dd" "dd \<le> MAXORDINAL"
  shows "\<exists>r. datetime_add d td = Inr r"
  using assms(2,3) unfolding assms(1) datetime_add_def Let_def by (simp only: conj_commute if_True simp_thms) (rule exI, rule refl)

lemma future_hour:
  assumes "valid_datetime cur" "0 \<le> i" "i < 24 * n" "ordinal cur + n \<le> MAXORDINAL"
  shows "\<exists>d. future cur i = Inr d"
proof -
  have v: "0 \<le> hour cur" "hour cur < 24" "0 \<le> minute cur" "minute cur < 60"
     "0 \<le> second cur" "second cur < 60" "0 \<le> microsecond cur" "microsecond cur < 1000000"
     "1 \<le> ordinal cur"
    using assms(1) by (simp_all add: valid_datetime_def)
  have q: "0 \<le> i div 24" "i div 24 < n" using assms(2,3) by linarith+
  have m: "0 \<le> i mod 24" "i mod 24 < 24" by simp_all
  have k: "\<not> \<bar>i div 24\<bar> > 999999999"
    using q assms(4) v(9) by (simp add: MAXORDINAL_def)
  define td where "td = \<lparr>days = i div 24, seconds = i mod 24 * 3600, microseconds = 0\<rparr>"
  have td: "mk_timedelta 0 i = Inr td"
    using k by (simp add: mk_timedelta_def td_def)
  define s where "s = hour cur * 3600 + minute cur * 60 + second cur + seconds td
     + (microsecond cur + microseconds td) div 1000000"
  have us: "(microsecond cur + microseconds td) div 1000000 = 0" using v(7,8) by (simp add: td_def)
  have std: "seconds td = i mod 24 * 3600" "days td = i div 24" by (simp_all add: td_def)
  have s: "0 \<le> s" "s < 172800" unfolding s_def us std using v(1-6) m by linarith+
  have sd: "0 \<le> s div 86400" "s div 86400 \<le> 1" using s by linarith+
  have dd: "0 < ordinal cur + days td + s div 86400"
       "ordinal cur + days td + s div 86400 \<le> MAXORDINAL"
    unfolding std using sd q v(9) assms(4) by linarith+
  have "\<exists>r. datetime_add cur td = Inr r"
    by (rule datetime_add_Inr[OF _ dd]) (simp only: s_def)
  then show ?thesis by (simp add: future_def td)
qed

lemma future_zero: "valid_datetime cur \<Longrightarrow> future cur 0 = Inr cur"
proof -
  assume v: "valid_datetime cur"
  then have "ordinal cur + 0 \<le> MAXORDINAL" by (simp add: valid_datetime_def)
  from future_day[OF v _ this] show ?thesis by simp
qed

lemma year_back:
  assumes "valid_datetime d" "365 < ordinal d"
  shows "datetime_sub d \<lparr>days = 365, seconds = 0, microseconds = 0\<rparr>
           = Inr (d\<lparr>ordinal := ordinal d - 365\<rparr>)"
proof -
  have v: "0 \<le> hour d" "hour d < 24" "0 \<le> minute d" "minute d < 60"
     "0 \<le> second d" "second d < 60" "0 \<le> microsecond d" "microsecond d < 1000000"
     "ordinal d \<le> MAXORDINAL"
    using assms(1) by (simp_all add: valid_datetime_def)
  have n: "timedelta_neg \<lparr>days = 365, seconds = 0, microseconds = 0\<rparr>
      = Inr \<lparr>days = - 365, seconds = 0, microseconds = 0\<rparr>"
    by (simp add: timedelta_neg_def)
  have us: "microsecond d div 1000000 = 0" "microsecond d mod 1000000 = microsecond d"
    using v(7,8) by simp_all
  show ?thesis
    using assms(2) v(9)
    by (simp add: datetime_sub_def n datetime_add_def Let_def us hms_div[OF v(1-6)])
qed

lemma in_bounds_after_year_one:
  assumes "valid_datetime d" "in_bounds (d\<lparr>ordinal := ordinal d - 365\<rparr>)"
  shows "365 < ordinal d"
proof (rule ccontr)
  assume "\<not> 365 < ordinal d"
  then have "ordinal d - 365 \<le> 0" by simp
  then have n: "(ordinal d - 365) * 86400000000 \<le> 0"
    by (rule mult_nonpos_nonneg) simp
  have v: "hour d < 24" "minute d < 60" "second d < 60" "microsecond d < 1000000"
    using assms(1) by (simp_all add: valid_datetime_def)
  have "0 \<le> timestamp_value (d\<lparr>ordinal := ordinal d - 365\<rparr>) + 9223372036854775807"
    using assms(2) by (simp add: in_bounds_def)
  then have "172800000000 \<le> (ordinal d - 365) * 86400000000 + hour d * 3600000000
      + minute d * 60000000 + second d * 1000000 + microsecond d"
    by (simp add: timestamp_value_def total_us_def algebra_simps)
  then show False using n v by linarith
qed

lemma year_range:
  assumes "in_bounds (d\<lparr>ordinal := ordinal d - 365\<rparr>)" "in_bounds d"
  shows "\<exists>ds. date_range (d\<lparr>ordinal := ordinal d - 365\<rparr>) d = Inr ds \<and> length ds = 8761"
proof -
  have "total_us d - total_us (d\<lparr>ordinal := ordinal d - 365\<rparr>) = 31536000000000"
    by (simp add: total_us_def algebra_simps)
  then show ?thesis using assms by (simp add: date_range_def)
qed

lemma history_dates_year:
  assumes "valid_datetime d" "in_bounds (d\<lparr>ordinal := ordinal d - 365\<rparr>)" "in_bounds d"
  shows "\<exists>ds. history_dates d = Inr ds \<and> length ds = 8761"
  using year_range[OF assms(2,3)]
  by (simp add: history_dates_def mk_timedelta_def
        year_back[OF assms(1) in_bounds_after_year_one[OF assms(1,2)]])




subsection \<open>Rounding and clipping\<close>

lemma round_half_even_near: "\<bar>of_int (round_half_even x) - x\<bar> \<le> 1 / 2"
proof -
  define r where "r = x - of_int \<lfloor>x\<rfloor>"
  have r: "0 \<le> r" "r < 1" unfolding r_def by linarith+
  have x: "x = of_int \<lfloor>x\<rfloor> + r" by (simp add: r_def)
  consider "r < 1 / 2" | "r > 1 / 2" | "r = 1 / 2" by linarith
  then show ?thesis
  proof cases
    case 1
    then have "round_half_even x = \<lfloor>x\<rfloor>"
      by (simp add: round_half_even_def Let_def r_def)
    then show ?thesis using 1 r x by linarith
  next
    case 2
    then have "round_half_even x = \<lfloor>x\<rfloor> + 1"
      by (simp add: round_half_even_def Let_def r_def)
    then have "of_int (round_half_even x) - x = 1 - r" using x by simp
    then show ?thesis using 2 r by linarith
  next
    case 3
    then have "round_half_even x = \<lfloor>x\<rfloor> \<or> round_half_even x = \<lfloor>x\<rfloor> + 1"
      by (simp add: round_half_even_def Let_def r_def)
    then have "of_int (round_half_even x) - x = - r \<or> of_int (round_half_even x) - x = 1 - r"
      using x by auto
    then show ?thesis using 3 by auto
  qed
qed

lemma py_round_one:
  "py_round x 1 = of_int (round_half_even (x * 10)) / 10 \<and> \<bar>py_round x 1 - x\<bar> \<le> 1 / 20"
proof -
  have e: "py_round x 1 = of_int (round_half_even (x * 10)) / 10"
    by (simp add: py_round_def)
  have "\<bar>of_int (round_half_even (x * 10)) - x * 10\<bar> \<le> 1 / 2"
    by (rule round_half_even_near)
  then have "\<bar>of_int (round_half_even (x * 10)) / 10 - x\<bar> \<le> 1 / 20"
    by (simp add: abs_if split: if_splits)
  then show ?thesis unfolding e by (intro conjI refl)
qed

lemma clip_cases:
  "lo \<le> hi \<Longrightarrow> clip a lo hi = (if a < lo then lo else if hi < a then hi else a)"
  by (simp add: clip_def)

subsection \<open>The forecast loop\<close>

lemma predict_step_record_at:
  "predict_step self cur i preds =
     (case record_at self cur i of
        Inl e \<Rightarrow> Inl e
      | Inr r \<Rightarrow> Inr (if i mod 24 = 0 then preds @ [r] else preds))"
  by (simp add: predict_step_def record_at_def future_def raw_prediction_def emit_def Let_def
           split: sum.splits)

lemma predict_loop_Inr:
  "predict_loop self cur xs preds = Inr rs \<longleftrightarrow>
     (list_all (\<lambda>i. \<not> isl (record_at self cur i)) xs
      \<and> rs = preds @ map (\<lambda>i. projr (record_at self cur i)) (filter (\<lambda>i. i mod 24 = 0) xs))"
proof (induction xs arbitrary: preds)
  case Nil
  then show ?case by auto
next
  case (Cons i xs)
  show ?case
  proof (cases "record_at self cur i")
    case (Inl e)
    then show ?thesis by (simp add: predict_step_record_at)
  next
    case (Inr r)
    then show ?thesis by (simp add: predict_step_record_at Cons.IH)
  qed
qed

lemma predict_loop_first_fails:
  "record_at self cur i = Inl e \<Longrightarrow> predict_loop self cur (i # xs) preds = Inl e"
  by (simp add: predict_step_record_at)

lemma predict_loop_second_fails:
  "record_at self cur i = Inr r \<Longrightarrow> record_at self cur j = Inl e
   \<Longrightarrow> predict_loop self cur (i # j # xs) preds = Inl e"
  by (simp add: predict_step_record_at)

lemma length_create_features: "length (create_features d) = 7"
  by (simp add: create_features_def)

lemma raw_prediction_trained:
  assumes "trained self"
  shows "\<exists>p. raw_prediction self d = Inr p"
proof -
  from assms obtain ps where ps: "scaler self = ScalerFitted ps" "length ps = 7"
    by (auto simp: trained_def scaler_width_def split: scaler_t.splits)
  from assms obtain f where f: "rf_fitted (temp_model self) = Some (7, f)"
    by (auto simp: trained_def)
  from assms obtain g where g: "gb_fitted (humidity_model self) = Some (7, g)"
    by (auto simp: trained_def)
  show ?thesis
    by (simp add: raw_prediction_def transform_def regressor_predict_def ps f g
          length_create_features)
qed

lemma raw_prediction_untrained:
  assumes "\<not> trained self"
  shows "raw_prediction self d = Inl NotFittedError \<or> raw_prediction self d = Inl ValueError"
  using assms
  by (auto simp: raw_prediction_def transform_def regressor_predict_def trained_def
        scaler_width_def length_create_features
      split: scaler_t.splits option.splits sum.splits if_splits)

lemma day_block_Cons: "[n * 24..<n * 24 + 24] = (n * 24) # [Suc (n * 24)..<n * 24 + 24]"
  by (rule upt_conv_Cons) simp

lemma inside_day_block:
  assumes "Suc (n * 24) \<le> j" "j < n * 24 + 24"
  shows "int j mod 24 \<noteq> 0"
proof -
  have "j mod 24 \<noteq> 0" using assms by presburger
  then have "int (j mod 24) \<noteq> 0" by simp
  then show ?thesis by (simp add: zmod_int)
qed

lemma day_block_members:
  "x \<in> set (map int [Suc (n * 24)..<n * 24 + 24])
   \<Longrightarrow> \<exists>j. x = int j \<and> Suc (n * 24) \<le> j \<and> j < n * 24 + 24"
  by auto

lemma filter_day_block_tail:
  "filter (\<lambda>i. i mod 24 = 0) (map int [Suc (n * 24)..<n * 24 + 24]) = []"
  unfolding filter_empty_conv
proof
  fix x assume "x \<in> set (map int [Suc (n * 24)..<n * 24 + 24])"
  from day_block_members[OF this] obtain j
    where j: "x = int j" "Suc (n * 24) \<le> j" "j < n * 24 + 24"
    by (elim exE conjE)
  show "\<not> x mod 24 = 0" using inside_day_block[OF j(2,3)] j(1) by simp
qed

lemma filter_day_block:
  "filter (\<lambda>i. i mod 24 = 0) (map int [n * 24..<n * 24 + 24]) = [24 * int n]"
proof -
  have "map int [n * 24..<n * 24 + 24] = int (n * 24) # map int [Suc (n * 24)..<n * 24 + 24]"
    by (simp only: day_block_Cons list.map)
  moreover have "int (n * 24) = 24 * int n" by simp
  moreover have "(24 * int n) mod 24 = 0" by simp
  ultimately show ?thesis using filter_day_block_tail
    by (simp only: filter.simps if_True) simp
qed

lemma filter_py_range:
  "filter (\<lambda>i. i mod 24 = 0) (py_range (int n * 24)) = map (\<lambda>k. 24 * int k) [0..<n]"
proof (induction n)
  case 0
  then show ?case by (simp add: py_range_def)
next
  case (Suc n)
  have a: "nat (int (Suc n) * 24) = n * 24 + 24" by simp
  have b: "nat (int n * 24) = n * 24" by simp
  have c: "[0..<n * 24 + 24] = [0..<n * 24] @ [n * 24..<n * 24 + 24]"
    by (rule upt_add_eq_append) simp
  have "py_range (int (Suc n) * 24)
      = py_range (int n * 24) @ map int [n * 24..<n * 24 + 24]"
    unfolding py_range_def a b c by (rule map_append)
  then have "filter (\<lambda>i. i mod 24 = 0) (py_range (int (Suc n) * 24))
      = map (\<lambda>k. 24 * int k) [0..<n] @ [24 * int n]"
    by (simp only: filter_append filter_day_block Suc.IH)
  then show ?case by simp
qed

lemma record_at_hour:
  assumes "trained self" "valid_datetime cur" "0 \<le> i" "i < 24 * n" "ordinal cur + n \<le> MAXORDINAL"
  shows "\<exists>r. record_at self cur i = Inr r"
proof -
  from future_hour[OF assms(2-5)] obtain d where d: "future cur i = Inr d" ..
  from raw_prediction_trained[OF assms(1)] obtain p where p: "raw_prediction self d = Inr p" ..
  show ?thesis by (simp add: record_at_def d p)
qed

lemma record_at_day:
  assumes "valid_datetime cur" "0 \<le> k" "ordinal cur + k \<le> MAXORDINAL"
  shows "record_at self cur (24 * k) =
     (case raw_prediction self (cur\<lparr>ordinal := ordinal cur + k\<rparr>) of
        Inl e \<Rightarrow> Inl e
      | Inr p \<Rightarrow> Inr (emit (cur\<lparr>ordinal := ordinal cur + k\<rparr>) p))"
  by (simp add: record_at_def future_day[OF assms])

lemma set_py_range: "i \<in> set (py_range m) \<Longrightarrow> 0 \<le> i \<and> i < m"
  by (auto simp: py_range_def)

lemma forecast_loop_returns:
  assumes "trained self" "valid_datetime cur" "ordinal cur + int n \<le> MAXORDINAL"
  shows "predict_loop self cur (py_range (int n * 24)) [] =
           Inr (map (\<lambda>k. projr (record_at self cur (24 * int k))) [0..<n])"
proof -
  have "list_all (\<lambda>i. \<not> isl (record_at self cur i)) (py_range (int n * 24))"
    unfolding list_all_iff
  proof
    fix i assume "i \<in> set (py_range (int n * 24))"
    then have "0 \<le> i" "i < 24 * int n" using set_py_range[of i "int n * 24"] by simp_all
    from record_at_hour[OF assms(1,2) this assms(3)]
    show "\<not> isl (record_at self cur i)" by auto
  qed
  moreover have "map (\<lambda>i. projr (record_at self cur i))
       (filter (\<lambda>i. i mod 24 = 0) (py_range (int n * 24)))
     = map (\<lambda>k. projr (record_at self cur (24 * int k))) [0..<n]"
    by (simp add: filter_py_range o_def)
  ultimately show ?thesis by (simp add: predict_loop_Inr)
qed

lemma py_range_days: "py_range (ndays * 24) = py_range (int (nat ndays) * 24)"
  by (cases "0 \<le> ndays") (simp_all add: py_range_def nat_mult_distrib)

lemma py_range_two: "2 \<le> m \<Longrightarrow> py_range m = 0 # 1 # map int [2..<nat m]"
proof -
  assume m: "2 \<le> m"
  have "[0..<nat m] = 0 # [1..<nat m]" using m by (simp add: upt_conv_Cons)
  moreover have "[1..<nat m] = 1 # [2..<nat m]"
    using m upt_conv_Cons[of 1 "nat m"] by (simp add: numeral_2_eq_2)
  ultimately show ?thesis by (simp add: py_range_def)
qed

lemma py_range_first: "1 \<le> ndays \<Longrightarrow> \<exists>rest. py_range (ndays * 24) = 0 # rest"
proof -
  assume "1 \<le> ndays"
  then have "2 \<le> ndays * 24" by simp
  from py_range_two[OF this] show ?thesis by blast
qed

lemma forecast_returned:
  assumes "fst (predict_weather w self city ndays) = Inr rs"
  shows "rs = map (\<lambda>k. projr (record_at self (clock w) (24 * int k))) [0..<nat ndays]
     \<and> list_all (\<lambda>i. \<not> isl (record_at self (clock w) i)) (py_range (ndays * 24))"
proof -
  have l: "predict_loop self (clock w) (py_range (ndays * 24)) [] = Inr rs"
    using assms by (simp add: predict_weather_def split: sum.splits)
  have "filter (\<lambda>i. i mod 24 = 0) (py_range (ndays * 24))
      = map (\<lambda>k. 24 * int k) [0..<nat ndays]"
    unfolding py_range_days[of ndays] by (rule filter_py_range)
  then show ?thesis using l by (simp add: predict_loop_Inr o_def)
qed

lemma day_hour_in_range: "k < nat ndays \<Longrightarrow> 24 * int k \<in> set (py_range (ndays * 24))"
proof -
  assume k: "k < nat ndays"
  then have "24 * k < nat (ndays * 24)" by linarith
  then have "24 * k \<in> set [0..<nat (ndays * 24)]" by simp
  then have "int (24 * k) \<in> set (py_range (ndays * 24))"
    unfolding py_range_def set_map by (rule imageI)
  then show ?thesis by simp
qed

lemma forecast_record:
  assumes "fst (predict_weather w self city ndays) = Inr rs" "k < length rs"
  shows "\<exists>d p. future (clock w) (24 * int k) = Inr d \<and> raw_prediction self d = Inr p
      \<and> rs ! k = emit d p"
proof -
  note fr = forecast_returned[OF assms(1)]
  have k: "k < nat ndays" using assms(2) fr by simp
  have r: "rs ! k = projr (record_at self (clock w) (24 * int k))"
    using fr k by simp
  have "\<not> isl (record_at self (clock w) (24 * int k))"
    using fr day_hour_in_range[OF k] by (simp add: list_all_iff)
  then obtain d p where "future (clock w) (24 * int k) = Inr d" "raw_prediction self d = Inr p"
    "record_at self (clock w) (24 * int k) = Inr (emit d p)"
    by (auto simp: record_at_def split: sum.splits)
  then show ?thesis using r by (intro exI[of _ d] exI[of _ p]) simp
qed

lemma record_at_untrained:
  assumes "\<not> trained self"
  shows "isl (record_at self cur i)"
proof (cases "future cur i")
  case (Inl e)
  then show ?thesis by (simp add: record_at_def)
next
  case (Inr d)
  then show ?thesis
    using raw_prediction_untrained[OF assms, of d] by (auto simp: record_at_def)
qed

lemma forecast_first_hour:
  assumes "get_current_weather w self city = Inr cw" "valid_datetime (clock w)" "1 \<le> ndays"
    and "raw_prediction self (clock w) = Inl e"
  shows "fst (predict_weather w self city ndays) = Inl e"
proof -
  from py_range_first[OF assms(3)] obtain rest where r: "py_range (ndays * 24) = 0 # rest" ..
  have "record_at self (clock w) 0 = Inl e"
    by (simp add: record_at_def future_zero[OF assms(2)] assms(4))
  then have "predict_loop self (clock w) (py_range (ndays * 24)) [] = Inl e"
    unfolding r by (rule predict_loop_first_fails)
  then show ?thesis by (simp add: predict_weather_def assms(1))
qed

lemma predict_weather_lookup_fails:
  "get_current_weather w self city = Inl e \<Longrightarrow> predict_weather w self city ndays = (Inl e, w)"
  by (simp add: predict_weather_def)

lemma forecast_returns:
  assumes "trained self" "get_current_weather w self city = Inr cw"
    and "valid_datetime (clock w)" "ordinal (clock w) + int n \<le> MAXORDINAL"
  shows "\<exists>rs. fst (predict_weather w self city (int n)) = Inr rs \<and> length rs = n"
proof -
  from forecast_loop_returns[OF assms(1,3,4)]
  have "fst (predict_weather w self city (int n))
      = Inr (map (\<lambda>k. projr (record_at self (clock w) (24 * int k))) [0..<n])"
    by (simp add: predict_weather_def assms(2))
  then show ?thesis by simp
qed

subsection \<open>The synthesizer\<close>

lemma get_historical_data_synthesize:
  "get_historical_data w self city = synthesize (get_base_temperature w self city) w"
  by (simp add: get_historical_data_def synthesize_def history_dates_def Let_def
        split: sum.splits)

lemma synthesize_row_world: "snd (synthesize_row b d w) = w\<lparr>drawn := drawn w + 2\<rparr>"
  by (simp add: synthesize_row_def normal_def Let_def)

lemma synthesize_row_humidity:
  "obs_humidity (fst (synthesize_row b d w))
     = clip (60 - (obs_temperature (fst (synthesize_row b d w)) - b)
             + fst (normal 0 5 (w\<lparr>drawn := drawn w + 1\<rparr>))) 30 90"
  by (simp add: synthesize_row_def normal_def Let_def)

lemma synthesize_row_temperature:
  "obs_temperature (fst (synthesize_row b d w))
     = b + 5 * sin (2 * pi * of_int (month d - 1) / 12) + 3 * sin (2 * pi * of_int (hour d) / 24)
       + fst (normal 0 1 w)"
  by (simp add: synthesize_row_def normal_def Let_def)

lemma synthesize_row_rest:
  "obs_date (fst (synthesize_row b d w)) = d"
  "obs_features (fst (synthesize_row b d w)) = create_features d"
  by (simp_all add: synthesize_row_def normal_def Let_def)

lemma synthesize_loop_rows:
  "synthesize_loop b ds data w = (out, w') \<Longrightarrow>
     length out = length data + length ds
     \<and> w' = w\<lparr>drawn := drawn w + 2 * length ds\<rparr>
     \<and> (\<forall>k<length ds. out ! (length data + k)
            = fst (synthesize_row b (ds ! k) (w\<lparr>drawn := drawn w + 2 * k\<rparr>)))
     \<and> take (length data) out = data"
proof (induction ds arbitrary: data w)
  case Nil
  then show ?case by simp
next
  case (Cons d ds)
  define row where "row = fst (synthesize_row b d w)"
  define w1 where "w1 = w\<lparr>drawn := drawn w + 2\<rparr>"
  have sr: "synthesize_row b d w = (row, w1)"
    by (simp add: row_def w1_def prod_eq_iff synthesize_row_world)
  from Cons.prems have "synthesize_loop b ds (data @ [row]) w1 = (out, w')"
    by (simp add: sr)
  from Cons.IH[OF this]
  have len: "length out = length (data @ [row]) + length ds"
    and wf: "w' = w1\<lparr>drawn := drawn w1 + 2 * length ds\<rparr>"
    and rows: "\<forall>k<length ds. out ! (length (data @ [row]) + k)
            = fst (synthesize_row b (ds ! k) (w1\<lparr>drawn := drawn w1 + 2 * k\<rparr>))"
    and tk: "take (length (data @ [row])) out = data @ [row]"
    by simp_all
  have a: "length out = length data + length (d # ds)" using len by simp
  have bb: "w' = w\<lparr>drawn := drawn w + 2 * length (d # ds)\<rparr>"
    using wf by (simp add: w1_def)
  have tk2: "take (length data) out = data"
  proof -
    have "take (length data) (take (length (data @ [row])) out) = take (length data) (data @ [row])"
      by (simp only: tk)
    then show ?thesis by (simp add: min_def)
  qed
  have first: "out ! length data = row"
  proof -
    have "take (length (data @ [row])) out ! length data = (data @ [row]) ! length data"
      by (simp only: tk)
    then show ?thesis by simp
  qed
  have c: "out ! (length data + k) = fst (synthesize_row b ((d # ds) ! k) (w\<lparr>drawn := drawn w + 2 * k\<rparr>))"
    if k: "k < length (d # ds)" for k
  proof (cases k)
    case 0
    then show ?thesis using first by (simp add: row_def)
  next
    case (Suc j)
    then have j: "j < length ds" using k by simp
    from rows[rule_format, OF j] show ?thesis
      by (simp add: Suc w1_def)
  qed
  show ?case using a bb c tk2 by blast
qed

lemma synthesize_returns:
  assumes "valid_datetime (clock w)" "in_bounds ((clock w)\<lparr>ordinal := ordinal (clock w) - 365\<rparr>)"
    and "in_bounds (clock w)"
  shows "\<exists>obs. fst (synthesize b w) = Inr obs \<and> length obs = 8761"
proof -
  from history_dates_year[OF assms] obtain ds
    where ds: "history_dates (clock w) = Inr ds" "length ds = 8761" by blast
  obtain out w' where l: "synthesize_loop b ds [] w = (out, w')" by (cases "synthesize_loop b ds [] w")
  from synthesize_loop_rows[OF l] have "length out = length ds" by simp
  then have "length out = 8761" by (simp add: ds(2))
  moreover have "fst (synthesize b w) = Inr out"
    using l by (simp add: synthesize_def ds(1))
  ultimately show ?thesis by blast
qed



lemma synthesize_rows:
  assumes "fst (synthesize b w) = Inr obs" "k < length obs"
  shows "\<exists>d. obs ! k = fst (synthesize_row b d (w\<lparr>drawn := drawn w + 2 * k\<rparr>))"
proof -
  from assms(1) obtain ds w' where l: "synthesize_loop b ds [] w = (obs, w')"
    by (auto simp: synthesize_def split: sum.splits prod.splits)
  from synthesize_loop_rows[OF l]
  have len: "length obs = length ds"
    and rows: "\<forall>k<length ds. obs ! (length ([]::observation list) + k)
            = fst (synthesize_row b (ds ! k) (w\<lparr>drawn := drawn w + 2 * k\<rparr>))"
    by simp_all
  have "k < length ds" using assms(2) len by simp
  from rows[rule_format, OF this] show ?thesis by auto
qed

lemma synthesized_features:
  assumes "fst (get_historical_data w self city) = Inr df" "x \<in> set (map obs_features df)"
  shows "length x = 7"
proof -
  from assms(2) obtain k where k: "k < length df" "x = obs_features (df ! k)"
    by (auto simp: in_set_conv_nth)
  have s: "fst (synthesize (get_base_temperature w self city) w) = Inr df"
    using assms(1) by (simp add: get_historical_data_synthesize)
  from synthesize_rows[OF s k(1)] obtain d
    where "df ! k = fst (synthesize_row (get_base_temperature w self city) d
                 (w\<lparr>drawn := drawn w + 2 * k\<rparr>))" ..
  then show ?thesis by (simp add: k(2) synthesize_row_rest length_create_features)
qed

lemma get_historical_data_world:
  "\<exists>k. snd (get_historical_data w self city) = w\<lparr>drawn := k\<rparr>"
proof (cases "history_dates (clock w)")
  case (Inl e)
  then have "snd (get_historical_data w self city) = w"
    by (simp add: get_historical_data_synthesize synthesize_def)
  then have "snd (get_historical_data w self city) = w\<lparr>drawn := drawn w\<rparr>" by simp
  then show ?thesis ..
next
  case (Inr ds)
  obtain out w' where l: "synthesize_loop (get_base_temperature w self city) ds [] w = (out, w')"
    by (cases "synthesize_loop (get_base_temperature w self city) ds [] w")
  from synthesize_loop_rows[OF l]
  have "w' = w\<lparr>drawn := drawn w + 2 * length ds\<rparr>" by simp
  moreover have "snd (get_historical_data w self city) = w'"
    by (simp add: get_historical_data_synthesize synthesize_def Inr l)
  ultimately show ?thesis by blast
qed

subsection \<open>The trainer\<close>

lemma train_test_split_indices:
  "train_test_split lib X y ts seed = Inr (a, b, c, d) \<longleftrightarrow>
     length y = length X
     \<and> (\<exists>train test. split_indices lib (length X) ts seed = Inr (train, test)
          \<and> list_all (\<lambda>i. i < length X) train \<and> list_all (\<lambda>i. i < length X) test
          \<and> a = map ((!) X) train \<and> b = map ((!) X) test
          \<and> c = map ((!) y) train \<and> d = map ((!) y) test)"
  by (auto simp: train_test_split_def take_rows_def split: sum.splits if_splits)

lemma two_splits_joint:
  assumes "length y = length X" "length z = length X"
  shows "train_test_split3 lib X y z ts seed =
     (case train_test_split lib X y ts seed of
        Inl e \<Rightarrow> Inl e
      | Inr (a, b, c, d) \<Rightarrow>
          (case train_test_split lib X z ts seed of
             Inl e \<Rightarrow> Inl e
           | Inr (a', b', c', d') \<Rightarrow> Inr (a, b, c, d, c', d')))"
  using assms
  by (simp add: train_test_split3_def train_test_split_def take_rows_def
        split: sum.splits prod.splits)

lemma length_transform_rows:
  "transform_rows sc X = Inr Xs \<Longrightarrow> length Xs = length X"
  by (induction X arbitrary: Xs) (auto split: sum.splits)

lemma length_fit_transform:
  "fit_transform X = Inr (sc, Xs) \<Longrightarrow> length Xs = length X"
  by (auto simp: fit_transform_def length_transform_rows split: sum.splits)

lemma train_model_joint_eq: "train_model lib w self city = train_model_joint lib w self city"
proof (cases "get_historical_data w self city")
  case (Pair r w1)
  show ?thesis
  proof (cases r)
    case (Inl e)
    then show ?thesis by (simp add: train_model_def train_model_joint_def Pair)
  next
    case (Inr df)
    show ?thesis
    proof (cases "fit_transform (map obs_features df)")
      case (Inl e)
      then show ?thesis by (simp add: train_model_def train_model_joint_def Pair Inr)
    next
      case f: (Inr p)
      obtain sc Xs where p: "p = (sc, Xs)" by (cases p)
      have len: "length Xs = length df"
        using length_fit_transform[of "map obs_features df" sc Xs] f p by simp
      have j: "train_test_split3 lib Xs (map obs_temperature df) (map obs_humidity df) (1 / 5) 42 =
         (case train_test_split lib Xs (map obs_temperature df) (1 / 5) 42 of
            Inl e \<Rightarrow> Inl e
          | Inr (a, b, c, d) \<Rightarrow>
              (case train_test_split lib Xs (map obs_humidity df) (1 / 5) 42 of
                 Inl e \<Rightarrow> Inl e
               | Inr (a', b', c', d') \<Rightarrow> Inr (a, b, c, d, c', d')))"
        by (rule two_splits_joint) (simp_all add: len)
      show ?thesis
        unfolding train_model_def train_model_joint_def Pair Inr
        by (simp only: prod.case sum.case Let_def f p j) (simp split: sum.splits prod.splits)
    qed
  qed
qed

lemma scaler_fit_width:
  assumes "scaler_fit X = Inr sc"
  shows "X \<noteq> [] \<and> scaler_width sc = Some (length (hd X))"
  using assms by (auto simp: scaler_fit_def scaler_width_def Let_def split: if_splits)

lemma transform_width:
  "transform sc x = Inr y \<Longrightarrow> scaler_width sc = Some (length y)"
  by (auto simp: transform_def scaler_width_def split: scaler_t.splits if_splits)

lemma transform_rows_width:
  "transform_rows sc X = Inr Xs \<Longrightarrow> y \<in> set Xs \<Longrightarrow> scaler_width sc = Some (length y)"
proof (induction X arbitrary: Xs)
  case Nil
  then show ?case by simp
next
  case (Cons x X)
  from Cons.prems(1) obtain z zs where z: "transform sc x = Inr z" "transform_rows sc X = Inr zs"
    "Xs = z # zs"
    by (auto split: sum.splits)
  show ?case
  proof (cases "y = z")
    case True
    then show ?thesis using transform_width[OF z(1)] by simp
  next
    case False
    then have "y \<in> set zs" using Cons.prems(2) z(3) by simp
    from Cons.IH[OF z(2) this] show ?thesis .
  qed
qed

lemma train_rows_subset:
  assumes "train_test_split lib X y ts seed = Inr (X_train, X_test, y_train, y_test)"
  shows "set X_train \<subseteq> set X"
proof -
  from assms obtain train where t: "list_all (\<lambda>i. i < length X) train" "X_train = map ((!) X) train"
    unfolding train_test_split_indices by blast
  show ?thesis unfolding t(2) using t(1) by (auto simp: list_all_iff)
qed

lemma rf_fit_width:
  "rf_fit lib m X y = Inr tm \<Longrightarrow> X \<noteq> [] \<and> map_option fst (rf_fitted tm) = Some (length (hd X))"
  by (auto simp: rf_fit_def split: if_splits)

lemma gb_fit_width:
  "gb_fit lib m X y = Inr hm \<Longrightarrow> X \<noteq> [] \<and> map_option fst (gb_fitted hm) = Some (length (hd X))"
  by (auto simp: gb_fit_def split: if_splits)

lemma train_model_steps:
  assumes "train_model lib w self city = (Inr score, w', self')"
  shows "\<exists>df w1 sc Xs X_train X_test yt yt' X2 X2' yh yh' tm hm.
     get_historical_data w self city = (Inr df, w1)
     \<and> fit_transform (map obs_features df) = Inr (sc, Xs)
     \<and> train_test_split lib Xs (map obs_temperature df) (1 / 5) 42 = Inr (X_train, X_test, yt, yt')
     \<and> train_test_split lib Xs (map obs_humidity df) (1 / 5) 42 = Inr (X2, X2', yh, yh')
     \<and> rf_fit lib (temp_model self) X_train yt = Inr tm
     \<and> gb_fit lib (humidity_model self) X_train yh = Inr hm
     \<and> self' = self\<lparr>scaler := sc, temp_model := tm, humidity_model := hm\<rparr>"
  using assms
  by (auto simp: train_model_def Let_def split: prod.splits sum.splits)

text \<open>
  A training run that returns a score leaves the predictor trained: the scaler and both
  regressors are fitted on the seven features of the encoder.
\<close>

lemma train_model_trained:
  assumes "train_model lib w self city = (Inr score, w', self')"
  shows "trained self'"
proof -
  from train_model_steps[OF assms] obtain df w1 sc Xs X_train X_test yt yt' X2 X2' yh yh' tm hm
    where g: "get_historical_data w self city = (Inr df, w1)"
      and f: "fit_transform (map obs_features df) = Inr (sc, Xs)"
      and s: "train_test_split lib Xs (map obs_temperature df) (1 / 5) 42
                = Inr (X_train, X_test, yt, yt')"
      and rf: "rf_fit lib (temp_model self) X_train yt = Inr tm"
      and gb: "gb_fit lib (humidity_model self) X_train yh = Inr hm"
      and self': "self' = self\<lparr>scaler := sc, temp_model := tm, humidity_model := hm\<rparr>"
    by blast
  from f have sf: "scaler_fit (map obs_features df) = Inr sc"
    and tr: "transform_rows sc (map obs_features df) = Inr Xs"
    by (auto simp: fit_transform_def split: sum.splits)
  from scaler_fit_width[OF sf] have ne: "map obs_features df \<noteq> []"
    and w0: "scaler_width sc = Some (length (hd (map obs_features df)))" by simp_all
  have "hd (map obs_features df) \<in> set (map obs_features df)" using ne by (rule hd_in_set)
  then have "length (hd (map obs_features df)) = 7"
    using synthesized_features[of w self city df] g by simp
  then have w7: "scaler_width sc = Some 7" using w0 by simp
  have rows: "length x = 7" if "x \<in> set X_train" for x
  proof -
    have "x \<in> set Xs" using that train_rows_subset[OF s] by blast
    from transform_rows_width[OF tr this] show ?thesis using w7 by simp
  qed
  from rf_fit_width[OF rf] have "X_train \<noteq> []"
    and t: "map_option fst (rf_fitted tm) = Some (length (hd X_train))" by simp_all
  then have h7: "length (hd X_train) = 7" using rows by simp
  from gb_fit_width[OF gb] have h: "map_option fst (gb_fitted hm) = Some (length (hd X_train))"
    by simp
  show ?thesis unfolding trained_def self' using w7 t h h7 by simp
qed

lemma scaler_fit_returns:
  assumes "X \<noteq> []" "\<forall>x\<in>set X. length x = 7"
  shows "\<exists>ps. scaler_fit X = Inr (ScalerFitted ps) \<and> length ps = 7"
proof -
  have "hd X \<in> set X" using assms(1) by (rule hd_in_set)
  then have h: "length (hd X) = 7" using assms(2) by simp
  have "list_all (\<lambda>row. length row = 7) X" using assms(2) by (simp add: list_all_iff)
  then show ?thesis using assms(1) h by (simp add: scaler_fit_def)
qed

lemma transform_rows_returns:
  assumes "\<forall>x\<in>set X. length x = length ps"
  shows "\<exists>Xs. transform_rows (ScalerFitted ps) X = Inr Xs \<and> length Xs = length X
     \<and> (\<forall>y\<in>set Xs. length y = length ps)"
  using assms
proof (induction X)
  case Nil
  then show ?case by simp
next
  case (Cons x X)
  then obtain Xs where Xs: "transform_rows (ScalerFitted ps) X = Inr Xs" "length Xs = length X"
    "\<forall>y\<in>set Xs. length y = length ps" by auto
  have lx: "length x = length ps" using Cons.prems by simp
  define z where "z = map (\<lambda>(v, (m, s)). (v - m) / s) (zip x ps)"
  have t: "transform (ScalerFitted ps) x = Inr z" by (simp add: transform_def lx z_def)
  have "length z = length ps" by (simp add: z_def lx)
  then show ?case using Xs t by simp
qed

lemma predict_rows_returns:
  assumes "\<forall>x\<in>set X. length x = n"
  shows "\<exists>ys. predict_rows (Some (n, f)) X = Inr ys"
  using assms
proof (induction X)
  case Nil
  then show ?case by simp
next
  case (Cons x X)
  then obtain ys where "predict_rows (Some (n, f)) X = Inr ys" by auto
  moreover have "regressor_predict (Some (n, f)) x = Inr (f x)"
    using Cons.prems by (simp add: regressor_predict_def)
  ultimately show ?case by simp
qed

lemma year_split_indices:
  "split_indices lib 8761 (1 / 5) 42
     = Inr (take 7008 (drop 1753 (permutation lib 42 8761)), take 1753 (permutation lib 42 8761))"
proof -
  have "\<lceil>(1 / 5 :: real) * real (8761::nat)\<rceil> = 1753" by (simp add: ceiling_eq_iff)
  then show ?thesis by (simp add: split_indices_def Let_def)
qed

lemma year_split:
  assumes "length X = 8761" "length y = 8761"
    and "list_all (\<lambda>i. i < 8761) (permutation lib 42 8761)"
  shows "train_test_split lib X y (1 / 5) 42
     = Inr (map ((!) X) (take 7008 (drop 1753 (permutation lib 42 8761))),
            map ((!) X) (take 1753 (permutation lib 42 8761)),
            map ((!) y) (take 7008 (drop 1753 (permutation lib 42 8761))),
            map ((!) y) (take 1753 (permutation lib 42 8761)))"
proof -
  define p where "p = permutation lib 42 8761"
  have a: "list_all (\<lambda>i. i < 8761) (take 7008 (drop 1753 p))"
    using assms(3) unfolding p_def list_all_iff
    by (meson in_set_dropD in_set_takeD)
  have b: "list_all (\<lambda>i. i < 8761) (take 1753 p)"
    using assms(3) unfolding p_def list_all_iff by (meson in_set_takeD)
  have i: "split_indices lib (length X) (1 / 5) 42 = Inr (take 7008 (drop 1753 p), take 1753 p)"
    unfolding assms(1) p_def by (rule year_split_indices)
  have t: "take_rows X (take 7008 (drop 1753 p)) = Inr (map ((!) X) (take 7008 (drop 1753 p)))"
    "take_rows X (take 1753 p) = Inr (map ((!) X) (take 1753 p))"
    "take_rows y (take 7008 (drop 1753 p)) = Inr (map ((!) y) (take 7008 (drop 1753 p)))"
    "take_rows y (take 1753 p) = Inr (map ((!) y) (take 1753 p))"
    using a b by (simp_all add: take_rows_def assms(1,2))
  show ?thesis
    unfolding train_test_split_def p_def[symmetric] i by (simp add: assms(1,2) t)
qed

text \<open>
  With a clock such that pandas can hold it and the timestamp 365 days before it, and a
  library whose permutation of 8761 rows has 8761 entries below 8761, a training run
  returns a score, whatever the weather service does, and leaves the predictor trained.
\<close>

lemma train_model_returns:
  assumes "valid_datetime (clock w)" "in_bounds ((clock w)\<lparr>ordinal := ordinal (clock w) - 365\<rparr>)"
    and "in_bounds (clock w)"
    and "length (permutation lib 42 8761) = 8761"
    and "list_all (\<lambda>i. i < 8761) (permutation lib 42 8761)"
  shows "\<exists>score w' self'. train_model lib w self city = (Inr score, w', self') \<and> trained self'"
proof -
  define p where "p = permutation lib 42 8761"
  define train where "train = take 7008 (drop 1753 p)"
  define test where "test = take 1753 p"
  from synthesize_returns[OF assms(1,2,3), of "get_base_temperature w self city"]
  obtain df where df: "fst (get_historical_data w self city) = Inr df" "length df = 8761"
    by (auto simp: get_historical_data_synthesize)
  obtain w1 where g: "get_historical_data w self city = (Inr df, w1)"
    using df(1) by (cases "get_historical_data w self city") simp
  define X where "X = map obs_features df"
  have Xw: "\<forall>x\<in>set X. length x = 7"
    unfolding X_def using synthesized_features[OF df(1)] by blast
  have Xne: "X \<noteq> []" using df(2) by (auto simp: X_def)
  from scaler_fit_returns[OF Xne Xw] obtain ps
    where ps: "scaler_fit X = Inr (ScalerFitted ps)" "length ps = 7" by blast
  from transform_rows_returns[of X ps] Xw ps(2) obtain Xs
    where Xs: "transform_rows (ScalerFitted ps) X = Inr Xs" "length Xs = length X"
      "\<forall>y\<in>set Xs. length y = 7" by auto
  have f: "fit_transform X = Inr (ScalerFitted ps, Xs)"
    by (simp add: fit_transform_def ps(1) Xs(1))
  have lX: "length Xs = 8761" using Xs(2) df(2) by (simp add: X_def)
  have s1: "train_test_split lib Xs (map obs_temperature df) (1 / 5) 42
     = Inr (map ((!) Xs) train, map ((!) Xs) test,
            map ((!) (map obs_temperature df)) train, map ((!) (map obs_temperature df)) test)"
    unfolding train_def test_def p_def by (rule year_split) (simp_all add: lX df(2) assms(5))
  have s2: "train_test_split lib Xs (map obs_humidity df) (1 / 5) 42
     = Inr (map ((!) Xs) train, map ((!) Xs) test,
            map ((!) (map obs_humidity df)) train, map ((!) (map obs_humidity df)) test)"
    unfolding train_def test_def p_def by (rule year_split) (simp_all add: lX df(2) assms(5))
  have ltrain: "length train = 7008" by (simp add: train_def p_def assms(4))
  have tne: "map ((!) Xs) train \<noteq> []" using ltrain by auto
  define F where "F = random_forest lib (rf_n_estimators (temp_model self))
      (rf_max_depth (temp_model self)) (rf_random_state (temp_model self))
      (map ((!) Xs) train) (map ((!) (map obs_temperature df)) train)"
  define tm where "tm = (temp_model self)\<lparr>rf_fitted := Some (length (hd (map ((!) Xs) train)), F)\<rparr>"
  have rf: "rf_fit lib (temp_model self) (map ((!) Xs) train)
      (map ((!) (map obs_temperature df)) train) = Inr tm"
    using tne by (simp add: rf_fit_def tm_def F_def)
  obtain hm where gb: "gb_fit lib (humidity_model self) (map ((!) Xs) train)
      (map ((!) (map obs_humidity df)) train) = Inr hm"
    using tne by (simp add: gb_fit_def)
  have idx: "list_all (\<lambda>i. i < 8761) train" "list_all (\<lambda>i. i < 8761) test"
    using assms(5) unfolding train_def test_def p_def list_all_iff
    by (meson in_set_dropD in_set_takeD)+
  have rows: "\<forall>x\<in>set (map ((!) Xs) test). length x = 7"
    using idx(2) Xs(3) lX by (auto simp: list_all_iff)
  have rows_train: "\<forall>x\<in>set (map ((!) Xs) train). length x = 7"
    using idx(1) Xs(3) lX by (auto simp: list_all_iff)
  have "hd (map ((!) Xs) train) \<in> set (map ((!) Xs) train)" using tne by (rule hd_in_set)
  then have h7: "length (hd (map ((!) Xs) train)) = 7" using rows_train by blast
  from predict_rows_returns[OF rows, of F] obtain ys
    where "predict_rows (Some (7, F)) (map ((!) Xs) test) = Inr ys" ..
  then have sc: "rf_score tm (map ((!) Xs) test) (map ((!) (map obs_temperature df)) test)
      = Inr (r2_score (map ((!) (map obs_temperature df)) test) ys)"
    by (simp add: rf_score_def tm_def h7)
  have "\<exists>score w' self'. train_model lib w self city = (Inr score, w', self')"
    unfolding train_model_def
    by (simp add: g Let_def f[unfolded X_def] s1 s2 rf gb sc)
  then obtain score w' self' where r: "train_model lib w self city = (Inr score, w', self')"
    by blast
  from train_model_trained[OF r] r show ?thesis by blast
qed

lemma train_model_world:
  assumes "train_model lib w self city = (r, w', self')"
  shows "service w' = service w \<and> clock w' = clock w \<and> variates w' = variates w
     \<and> api_key self' = api_key self"
proof -
  obtain g w1 where g: "get_historical_data w self city = (g, w1)"
    by (cases "get_historical_data w self city")
  from get_historical_data_world[of w self city] obtain k where "w1 = w\<lparr>drawn := k\<rparr>"
    using g by auto
  then have w1: "service w1 = service w" "clock w1 = clock w" "variates w1 = variates w"
    by simp_all
  show ?thesis
    using assms w1
    by (auto simp: train_model_def g Let_def split: prod.splits sum.splits)
qed

subsection \<open>The sample values\<close>

lemma trained_sample: "trained sample_trained"
  by (simp add: trained_def sample_trained_def scaler_width_def)

lemma valid_sample_clock: "valid_datetime sample_clock"
  by (simp add: valid_datetime_def sample_clock_def MAXORDINAL_def)

lemma sample_clock_in_bounds:
  "in_bounds (sample_clock\<lparr>ordinal := ordinal sample_clock - 365\<rparr>)" "in_bounds sample_clock"
  by (simp_all add: in_bounds_def timestamp_value_def total_us_def sample_clock_def)

lemma online_lookup: "get_current_weather online self city = Inr sample_weather"
  by (simp add: get_current_weather_def online_def)

lemma offline_lookup: "get_current_weather offline self city = Inl ExternalLookupFailure"
  by (simp add: get_current_weather_def offline_def online_def)

lemma ord2ymd_sample: "ord2ymd 739924 = (2026, 11, 4)"
  by (simp add: ord2ymd_def Let_def DAYS_BEFORE_MONTH_def DAYS_IN_MONTH_def)

lemma ord2ymd_sample_next: "ord2ymd 739925 = (2026, 11, 5)"
  by (simp add: ord2ymd_def Let_def DAYS_BEFORE_MONTH_def DAYS_IN_MONTH_def)

lemma ord2ymd_sample_last: "ord2ymd 740103 = (2027, 5, 2)"
  by (simp add: ord2ymd_def Let_def DAYS_BEFORE_MONTH_def DAYS_IN_MONTH_def)

lemma ord2ymd_max: "ord2ymd 3652059 = (9999, 12, 31)"
  by (simp add: ord2ymd_def Let_def DAYS_BEFORE_MONTH_def DAYS_IN_MONTH_def)

lemma future_last_evening_0: "future last_evening 0 = Inr last_evening"
  by (simp add: future_def mk_timedelta_def datetime_add_def last_evening_def MAXORDINAL_def)

lemma future_last_evening_1: "future last_evening 1 = Inl OverflowError"
  by (simp add: future_def mk_timedelta_def datetime_add_def last_evening_def MAXORDINAL_def)

lemma future_next_day: "future sample_clock 24 = Inr (sample_clock\<lparr>ordinal := 739925\<rparr>)"
proof -
  have "ordinal sample_clock + 1 \<le> MAXORDINAL" by (simp add: sample_clock_def MAXORDINAL_def)
  from future_day[OF valid_sample_clock _ this] show ?thesis by (simp add: sample_clock_def)
qed

lemma raw_prediction_sample:
  "raw_prediction sample_trained sample_clock = Inr (319 / 10, 7526 / 100)"
  by (simp add: raw_prediction_def sample_trained_def transform_def create_features_def
        regressor_predict_def sample_clock_def)

lemma sample_split_indices:
  "n = 5 \<Longrightarrow> split_indices sample_lib n (1 / 5) 42 = Inr ([3, 2, 1, 0], [4])"
proof -
  assume n: "n = 5"
  have "[0..<5] = [0, 1, 2, 3, 4]" by (simp add: upt_rec)
  then show ?thesis by (simp add: split_indices_def sample_lib_def n)
qed

lemma sample_split_temp:
  "train_test_split sample_lib [[1], [2], [3], [4], [5::real]] [10, 20, 30, 40, 50::real] (1 / 5) 42
     = Inr ([[4], [3], [2], [1]], [[5]], [40, 30, 20, 10], [50])"
proof -
  have i: "split_indices sample_lib (length [[1], [2], [3], [4], [5::real]]) (1 / 5) 42
      = Inr ([3, 2, 1, 0], [4])"
    by (rule sample_split_indices) simp
  show ?thesis unfolding train_test_split_def i by (simp add: take_rows_def)
qed

lemma sample_split_humidity:
  "train_test_split sample_lib [[1], [2], [3], [4], [5::real]] [61, 62, 63, 64, 65::real] (1 / 5) 42
     = Inr ([[4], [3], [2], [1]], [[5]], [64, 63, 62, 61], [65])"
proof -
  have i: "split_indices sample_lib (length [[1], [2], [3], [4], [5::real]]) (1 / 5) 42
      = Inr ([3, 2, 1, 0], [4])"
    by (rule sample_split_indices) simp
  show ?thesis unfolding train_test_split_def i by (simp add: take_rows_def)
qed

lemma sample_lib_permutation:
  "length (permutation sample_lib 42 8761) = 8761"
  "list_all (\<lambda>i. i < 8761) (permutation sample_lib 42 8761)"
  by (simp_all add: sample_lib_def list_all_iff)

section \<open>Properties\<close>

text \<open>
  C1. The event classifier evaluates its five threshold rules in strict priority order,
  the first match winning and no match giving nothing: it agrees with the ordered rule
  table on every input, and on the six inputs of the specification it returns the six
  listed answers.
\<close>

theorem C1_classifier_priority:
  "predict_weather_event t h = classify_spec t h
   \<and> predict_weather_event 36 25 = Some ''Heat Wave Warning''
   \<and> predict_weather_event 20 85 = Some ''Heavy Rainfall Expected''
   \<and> predict_weather_event 10 50 = Some ''Cold Weather Alert''
   \<and> predict_weather_event 25 15 = Some ''Dry Weather Warning''
   \<and> predict_weather_event 31 75 = Some ''High Humidity Warning''
   \<and> predict_weather_event 20 50 = None"
  by (simp add: predict_weather_event_def classify_spec_def event_rules_def)

text \<open>
  The forecast over 180 days of a trained predictor whose current-weather lookup returns,
  with the 180 days inside the range of \<^verbatim>\<open>datetime\<close>: exactly 180 records; the
  record with index \<open>k\<close> is the one computed at hour offset \<open>24 * k\<close>, and its
  date is the calendar date \<open>k\<close> days after the start date: read back as a date, it
  is day number \<open>k\<close> after the day number of the start, so the dates go up by exactly
  one day from each record to the next.
\<close>

lemma forecast_180_days:
  assumes "trained self" "get_current_weather w self city = Inr cw"
    and "valid_datetime (clock w)" "ordinal (clock w) + 180 \<le> MAXORDINAL"
  shows "\<exists>rs. fst (predict_weather w self city 180) = Inr rs \<and> length rs = 180
     \<and> (\<forall>k<180. record_at self (clock w) (24 * int k) = Inr (rs ! k)
            \<and> date (rs ! k)
                = strftime_ymd ((clock w)\<lparr>ordinal := ordinal (clock w) + int k\<rparr>)
            \<and> map_option ymd2ord (parse_ymd (date (rs ! k)))
                = Some (ordinal (clock w) + int k))"
proof -
  define rs where "rs = map (\<lambda>k. projr (record_at self (clock w) (24 * int k))) [0..<180]"
  have ord: "ordinal (clock w) + int 180 \<le> MAXORDINAL" using assms(4) by simp
  have "predict_loop self (clock w) (py_range (int 180 * 24)) [] = Inr rs"
    unfolding rs_def by (rule forecast_loop_returns[OF assms(1,3) ord])
  then have run: "fst (predict_weather w self city 180) = Inr rs"
    by (simp add: predict_weather_def assms(2))
  have len: "length rs = 180" by (simp add: rs_def)
  have each: "record_at self (clock w) (24 * int k) = Inr (rs ! k)
        \<and> date (rs ! k) = strftime_ymd ((clock w)\<lparr>ordinal := ordinal (clock w) + int k\<rparr>)
        \<and> map_option ymd2ord (parse_ymd (date (rs ! k))) = Some (ordinal (clock w) + int k)"
    if k: "k < 180" for k
  proof -
    have r: "rs ! k = projr (record_at self (clock w) (24 * int k))"
      using k by (simp add: rs_def)
    have b: "0 \<le> int k" "ordinal (clock w) + int k \<le> MAXORDINAL"
      using k assms(4) by simp_all
    from raw_prediction_trained[OF assms(1)] obtain p
      where p: "raw_prediction self ((clock w)\<lparr>ordinal := ordinal (clock w) + int k\<rparr>) = Inr p" ..
    have "record_at self (clock w) (24 * int k)
        = Inr (emit ((clock w)\<lparr>ordinal := ordinal (clock w) + int k\<rparr>) p)"
      by (simp add: record_at_day[OF assms(3) b] p)
    then have d: "record_at self (clock w) (24 * int k) = Inr (rs ! k)"
        "date (rs ! k) = strftime_ymd ((clock w)\<lparr>ordinal := ordinal (clock w) + int k\<rparr>)"
      by (simp_all add: r emit_def)
    have o: "1 \<le> ordinal ((clock w)\<lparr>ordinal := ordinal (clock w) + int k\<rparr>)"
        "ordinal ((clock w)\<lparr>ordinal := ordinal (clock w) + int k\<rparr>) \<le> MAXORDINAL"
      using assms(3) b by (simp_all add: valid_datetime_def)
    have "map_option ymd2ord (parse_ymd (date (rs ! k))) = Some (ordinal (clock w) + int k)"
      unfolding d(2) using day_number_of_date[OF o] by simp
    then show ?thesis using d by simp
  qed
  show ?thesis using run len each by blast
qed

text \<open>
  The bound on the clock is needed: from the last evening of year 9999 the second
  timestamp of the loop is past the last day \<^verbatim>\<open>datetime\<close> can hold.
\<close>

lemma forecast_past_last_day:
  "valid_datetime last_evening
   \<and> fst (predict_weather (online\<lparr>clock := last_evening\<rparr>) sample_trained ''Nagpur'' 180)
       = Inl OverflowError"
proof -
  have v: "valid_datetime last_evening"
    by (simp add: valid_datetime_def last_evening_def MAXORDINAL_def)
  from raw_prediction_trained[OF trained_sample] obtain p
    where p: "raw_prediction sample_trained last_evening = Inr p" ..
  have r0: "record_at sample_trained last_evening 0 = Inr (emit last_evening p)"
    by (simp add: record_at_def future_last_evening_0 p)
  have r1: "record_at sample_trained last_evening 1 = Inl OverflowError"
    by (simp add: record_at_def future_last_evening_1)
  have l: "get_current_weather (online\<lparr>clock := last_evening\<rparr>) sample_trained ''Nagpur''
      = Inr sample_weather"
    by (simp add: get_current_weather_def online_def)
  have "py_range (180 * 24) = 0 # 1 # map int [2..<nat (180 * 24)]"
    by (rule py_range_two) simp
  then have "predict_loop sample_trained last_evening (py_range (180 * 24)) [] = Inl OverflowError"
    using predict_loop_second_fails[OF r0 r1] by (simp only:)
  then have b: "fst (predict_weather (online\<lparr>clock := last_evening\<rparr>) sample_trained ''Nagpur'' 180)
       = Inl OverflowError"
    by (simp add: predict_weather_def l)
  show ?thesis using b v by blast
qed

text \<open>
  C2. A trained predictor asked for 180 days returns no record at all while the weather
  service cannot be reached: the lookup that \<^verbatim>\<open>predict_weather\<close> makes before its
  loop, and whose result it never uses, raises, and the caller gets that exception (the
  defect of C7). With the service in reach the same predictor, at the same clock,
  returns the 180 records of the claim, one for each day: the first dated with the day
  of the clock, the next with the day after, the last with the day 179 days after.
\<close>

theorem C2_no_record_without_lookup:
  "trained sample_trained
   \<and> get_current_weather offline sample_trained ''Nagpur'' = Inl ExternalLookupFailure
   \<and> predict_weather offline sample_trained ''Nagpur'' 180 = (Inl ExternalLookupFailure, offline)
   \<and> clock offline = clock online
   \<and> (\<exists>rs. fst (predict_weather online sample_trained ''Nagpur'' 180) = Inr rs
          \<and> length rs = 180 \<and> date (rs ! 0) = ''2026-11-04'' \<and> date (rs ! 1) = ''2026-11-05''
          \<and> date (rs ! 179) = ''2027-05-02''
          \<and> map_option ymd2ord (parse_ymd (date (rs ! 179))) = Some (ordinal (clock online) + 179))"
proof -
  have c: "clock online = sample_clock" by (simp add: online_def)
  have co: "clock offline = clock online" by (simp add: offline_def)
  have h: "valid_datetime (clock online)" "ordinal (clock online) + 180 \<le> MAXORDINAL"
    using valid_sample_clock by (simp_all add: c sample_clock_def MAXORDINAL_def)
  have a: "predict_weather offline sample_trained ''Nagpur'' 180 = (Inl ExternalLookupFailure, offline)"
    by (rule predict_weather_lookup_fails) (rule offline_lookup)
  from forecast_180_days[OF trained_sample online_lookup[of sample_trained "''Nagpur''"] h]
  obtain rs where rs: "fst (predict_weather online sample_trained ''Nagpur'' 180) = Inr rs"
      "length rs = 180"
      "\<forall>k<180. record_at sample_trained (clock online) (24 * int k) = Inr (rs ! k)
          \<and> date (rs ! k)
              = strftime_ymd ((clock online)\<lparr>ordinal := ordinal (clock online) + int k\<rparr>)
          \<and> map_option ymd2ord (parse_ymd (date (rs ! k)))
              = Some (ordinal (clock online) + int k)"
    by (elim exE conjE)
  have y: "decimal 2026 = ''2026''" "decimal 2027 = ''2027''"
    by (simp_all add: decimal_four digit_def)
  have d0: "date (rs ! 0) = ''2026-11-04''"
    using conjunct1[OF conjunct2[OF rs(3)[rule_format, of 0]]]
    by (simp add: c sample_clock_def strftime_ymd_def year_def month_def day_def
          ord2ymd_sample digit_def y)
  have d1: "date (rs ! 1) = ''2026-11-05''"
    using conjunct1[OF conjunct2[OF rs(3)[rule_format, of 1]]]
    by (simp add: c sample_clock_def strftime_ymd_def year_def month_def day_def
          ord2ymd_sample_next digit_def y)
  have d179: "date (rs ! 179) = ''2027-05-02''"
    using conjunct1[OF conjunct2[OF rs(3)[rule_format, of 179]]]
    by (simp add: c sample_clock_def strftime_ymd_def year_def month_def day_def
          ord2ymd_sample_last digit_def y)
  have p179: "map_option ymd2ord (parse_ymd (date (rs ! 179))) = Some (ordinal (clock online) + 179)"
  proof -
    have k: "(179::nat) < 180" by simp
    have e: "ordinal (clock online) + int 179 = ordinal (clock online) + 179" by simp
    show ?thesis using conjunct2[OF conjunct2[OF rs(3)[rule_format, OF k]]] unfolding e .
  qed
  have "\<exists>rs. fst (predict_weather online sample_trained ''Nagpur'' 180) = Inr rs
          \<and> length rs = 180 \<and> date (rs ! 0) = ''2026-11-04'' \<and> date (rs ! 1) = ''2026-11-05''
          \<and> date (rs ! 179) = ''2027-05-02''
          \<and> map_option ymd2ord (parse_ymd (date (rs ! 179))) = Some (ordinal (clock online) + 179)"
    using rs(1,2) d0 d1 d179 p179 by (intro exI[of _ rs]) (simp only: simp_thms)
  then show ?thesis using trained_sample offline_lookup[of sample_trained "''Nagpur''"] a co
    by (simp only: simp_thms)
qed

text \<open>
  C3. Every record the forecast returns carries the prediction of the temperature model
  minus 3, rounded to one decimal place (a multiple of a tenth at most a twentieth
  away), the prediction of the humidity model rounded the same way and otherwise
  unchanged, and the label the classifier gives for the two raw predictions.
\<close>

theorem C3_emitted_values:
  assumes "fst (predict_weather w self city ndays) = Inr rs" "k < length rs"
  shows "\<exists>d t h. future (clock w) (24 * int k) = Inr d \<and> raw_prediction self d = Inr (t, h)
     \<and> temperature (rs ! k) = py_round (t - 3) 1
     \<and> humidity (rs ! k) = py_round h 1
     \<and> event (rs ! k) = predict_weather_event t h
     \<and> temperature (rs ! k) = of_int (round_half_even ((t - 3) * 10)) / 10
     \<and> \<bar>temperature (rs ! k) - (t - 3)\<bar> \<le> 1 / 20
     \<and> humidity (rs ! k) = of_int (round_half_even (h * 10)) / 10
     \<and> \<bar>humidity (rs ! k) - h\<bar> \<le> 1 / 20"
proof -
  from forecast_record[OF assms] obtain d p
    where d: "future (clock w) (24 * int k) = Inr d" and p: "raw_prediction self d = Inr p"
      and r: "rs ! k = emit d p"
    by (elim exE conjE)
  obtain t h where th: "p = (t, h)" by (cases p)
  have v: "temperature (rs ! k) = py_round (t - 3) 1" "humidity (rs ! k) = py_round h 1"
    "event (rs ! k) = predict_weather_event t h"
    by (simp_all add: r th emit_def)
  show ?thesis
    using d p[unfolded th] v py_round_one[of "t - 3"] py_round_one[of h]
    by (rule_tac x = d in exI, rule_tac x = t in exI, rule_tac x = h in exI) simp
qed

theorem C3_emitted_values_witness:
  "\<exists>rs. fst (predict_weather online sample_trained ''Nagpur'' 180) = Inr rs \<and> 0 < length rs
     \<and> raw_prediction sample_trained sample_clock = Inr (319 / 10, 7526 / 100)
     \<and> temperature (rs ! 0) = 289 / 10 \<and> humidity (rs ! 0) = 753 / 10
     \<and> event (rs ! 0) = Some ''High Humidity Warning''
     \<and> predict_weather_event (289 / 10) (753 / 10) = None"
proof -
  have c: "clock online = sample_clock" by (simp add: online_def)
  have ord: "ordinal sample_clock + int 180 \<le> MAXORDINAL"
    by (simp add: sample_clock_def MAXORDINAL_def)
  define rs where
    "rs = map (\<lambda>k. projr (record_at sample_trained sample_clock (24 * int k))) [0..<180]"
  have "predict_loop sample_trained sample_clock (py_range (int 180 * 24)) [] = Inr rs"
    unfolding rs_def by (rule forecast_loop_returns[OF trained_sample valid_sample_clock ord])
  then have run: "fst (predict_weather online sample_trained ''Nagpur'' 180) = Inr rs"
    by (simp add: predict_weather_def online_lookup c)
  have len: "0 < length rs" by (simp add: rs_def)
  from C3_emitted_values[OF run len] obtain d t h
    where f: "future (clock online) (24 * int 0) = Inr d"
      and p: "raw_prediction sample_trained d = Inr (t, h)"
      and v: "temperature (rs ! 0) = py_round (t - 3) 1" "humidity (rs ! 0) = py_round h 1"
        "event (rs ! 0) = predict_weather_event t h"
    by (elim exE conjE)
  have "d = sample_clock" using f future_zero[OF valid_sample_clock] by (simp add: c)
  then have th: "t = 319 / 10" "h = 7526 / 100" using p raw_prediction_sample by simp_all
  have "temperature (rs ! 0) = 289 / 10"
    unfolding v th by (simp add: py_round_def round_half_even_def)
  moreover have "humidity (rs ! 0) = 753 / 10"
    unfolding v th by (simp add: py_round_def round_half_even_def)
  moreover have "event (rs ! 0) = Some ''High Humidity Warning''"
    unfolding v th by (simp add: predict_weather_event_def)
  moreover have "predict_weather_event (289 / 10) (753 / 10) = None"
    by (simp add: predict_weather_event_def)
  ultimately show ?thesis using run len raw_prediction_sample
    by (intro exI[of _ rs]) (simp only: simp_thms)
qed

text \<open>
  C4. For every timestamp the feature encoder returns the seven numbers month, day,
  hour, the sine and cosine of the month on a period of 12 and the sine and cosine of
  the day on a period of 31, in this order; it is a total function of the timestamp
  alone, so two calls on one timestamp return the same vector, and there is no
  exception it can raise. For a timestamp that \<^verbatim>\<open>datetime\<close> can hold, the first
  three are a month from 1 to 12, a day from 1 to 31 and an hour from 0 to 23.
\<close>

theorem C4_feature_vector:
  "create_features t =
     [ of_int (month t), of_int (day t), of_int (hour t),
       sin (2 * pi * (of_int (month t) / 12)), cos (2 * pi * (of_int (month t) / 12)),
       sin (2 * pi * (of_int (day t) / 31)), cos (2 * pi * (of_int (day t) / 31)) ]
   \<and> length (create_features t) = 7
   \<and> (valid_datetime t \<longrightarrow>
        1 \<le> month t \<and> month t \<le> 12 \<and> 1 \<le> day t \<and> day t \<le> 31 \<and> 0 \<le> hour t \<and> hour t \<le> 23)"
proof -
  have "1 \<le> month t \<and> month t \<le> 12 \<and> 1 \<le> day t \<and> day t \<le> 31 \<and> 0 \<le> hour t \<and> hour t \<le> 23"
    if v: "valid_datetime t"
  proof -
    have o: "1 \<le> ordinal t" using v by (simp add: valid_datetime_def)
    note p = ord2ymd_props[OF o]
    show ?thesis using p(3-6) v by (simp add: month_def day_def valid_datetime_def)
  qed
  then show ?thesis by (simp add: create_features_def)
qed

theorem C4_feature_vector_witness:
  "valid_datetime sample_clock
   \<and> create_features sample_clock
       = [11, 4, 9, sin (2 * pi * (11 / 12)), cos (2 * pi * (11 / 12)),
          sin (2 * pi * (4 / 31)), cos (2 * pi * (4 / 31))]
   \<and> length (create_features sample_clock) = 7"
proof -
  have m: "month sample_clock = 11" "day sample_clock = 4" "hour sample_clock = 9"
    by (simp_all add: month_def day_def sample_clock_def ord2ymd_sample)
  from C4_feature_vector[of sample_clock] show ?thesis
    using valid_sample_clock by (simp add: m)
qed

text \<open>
  C5 speaks of the law of the noise in the humidity (independent, normal, mean 0,
  standard deviation 5). The generator of numpy is modelled by the variates it delivers,
  and what their law is the model cannot say, so C5 is not a theorem here. What does not
  depend on that law is the following. For every observation the synthesizer returns,
  the humidity is \<open>x = 60 - (temperature - base_temperature) + noise_h\<close> brought
  into the interval from 30 to 90: 30 when \<open>x\<close> is below 30, 90 when it is above
  90, \<open>x\<close> itself otherwise. Here \<open>noise_h\<close> is what the observation's own
  call \<^verbatim>\<open>np.random.normal(0, 5)\<close> returns: 0 plus 5 times a variate of the
  generator that no other draw of the run uses (the draw for the temperature of
  observation \<open>k\<close> takes the variate at offset \<open>2 * k\<close> from the first, the
  draw for its humidity the one at offset \<open>2 * k + 1\<close>).
\<close>

lemma humidity_clamped:
  assumes "fst (get_historical_data w self city) = Inr obs" "k < length obs"
  shows "\<exists>noise_h x.
       noise_h = 0 + 5 * variates w (drawn w + (2 * k + 1))
     \<and> x = 60 - (obs_temperature (obs ! k) - get_base_temperature w self city) + noise_h
     \<and> obs_humidity (obs ! k) = (if x < 30 then 30 else if 90 < x then 90 else x)
     \<and> 30 \<le> obs_humidity (obs ! k) \<and> obs_humidity (obs ! k) \<le> 90"
proof -
  have s: "fst (synthesize (get_base_temperature w self city) w) = Inr obs"
    using assms(1) by (simp add: get_historical_data_synthesize)
  from synthesize_rows[OF s assms(2)] obtain d
    where r: "obs ! k = fst (synthesize_row (get_base_temperature w self city) d
                 (w\<lparr>drawn := drawn w + 2 * k\<rparr>))" ..
  define x where "x = 60 - (obs_temperature (obs ! k) - get_base_temperature w self city)
      + (0 + 5 * variates w (drawn w + (2 * k + 1)))"
  have e: "obs_humidity (obs ! k) = clip x 30 90"
    unfolding r x_def by (simp add: synthesize_row_humidity normal_def)
  have c: "clip x 30 90 = (if x < 30 then 30 else if 90 < x then 90 else x)"
    by (rule clip_cases) simp
  have b: "30 \<le> obs_humidity (obs ! k) \<and> obs_humidity (obs ! k) \<le> 90"
    unfolding e c by simp
  show ?thesis
    using e[unfolded c] b x_def
    by (rule_tac x = "0 + 5 * variates w (drawn w + (2 * k + 1))" in exI, rule_tac x = x in exI)
       (simp only: simp_thms)
qed

lemma temperature_synthesized:
  assumes "fst (get_historical_data w self city) = Inr obs" "k < length obs"
  shows "obs_temperature (obs ! k)
     = get_base_temperature w self city
       + 5 * sin (2 * pi * of_int (month (obs_date (obs ! k)) - 1) / 12)
       + 3 * sin (2 * pi * of_int (hour (obs_date (obs ! k))) / 24)
       + (0 + 1 * variates w (drawn w + 2 * k))"
proof -
  have s: "fst (synthesize (get_base_temperature w self city) w) = Inr obs"
    using assms(1) by (simp add: get_historical_data_synthesize)
  from synthesize_rows[OF s assms(2)] obtain d
    where r: "obs ! k = fst (synthesize_row (get_base_temperature w self city) d
                 (w\<lparr>drawn := drawn w + 2 * k\<rparr>))" ..
  show ?thesis
    unfolding r by (simp add: synthesize_row_temperature synthesize_row_rest normal_def)
qed

text \<open>
  The three cases on one run: a first observation whose value before clipping is at
  most 27, a second whose value is at least 91, and a third that is not clipped.
\<close>

lemma humidity_clamped_examples:
  "\<exists>obs. fst (get_historical_data noisy sample_trained ''Nagpur'') = Inr obs \<and> length obs = 8761
     \<and> get_base_temperature noisy sample_trained ''Nagpur'' = 31
     \<and> obs_humidity (obs ! 0) = 30
     \<and> obs_humidity (obs ! 1) = 90
     \<and> obs_humidity (obs ! 2) = 60 - (obs_temperature (obs ! 2) - 31)
     \<and> 51 \<le> obs_humidity (obs ! 2) \<and> obs_humidity (obs ! 2) \<le> 67"
proof -
  have c: "clock noisy = sample_clock" by (simp add: noisy_def online_def)
  have bt: "get_base_temperature noisy sample_trained ''Nagpur'' = 31"
    by (simp add: get_base_temperature_def get_current_weather_def noisy_def online_def
          sample_weather_def)
  from synthesize_returns[of noisy "get_base_temperature noisy sample_trained ''Nagpur''"]
  obtain obs where o: "fst (get_historical_data noisy sample_trained ''Nagpur'') = Inr obs"
      and len: "length obs = 8761"
    using valid_sample_clock sample_clock_in_bounds
    by (auto simp: c get_historical_data_synthesize)
  have s: "fst (synthesize 31 noisy) = Inr obs"
    using o by (simp add: get_historical_data_synthesize bt)
  have v: "variates noisy (drawn noisy + 2 * k) = 1" for k
    by (simp add: noisy_def online_def)
  have t: "obs_temperature (obs ! k) - 31 = 5 * sin (2 * pi * of_int (month d - 1) / 12)
           + 3 * sin (2 * pi * of_int (hour d) / 24) + 1"
    if "obs ! k = fst (synthesize_row 31 d (noisy\<lparr>drawn := drawn noisy + 2 * k\<rparr>))" for k d
    unfolding that by (simp add: synthesize_row_temperature normal_def v)
  have sb: "- 1 \<le> sin (2 * pi * of_int (month d - 1) / 12)" "sin (2 * pi * of_int (month d - 1) / 12) \<le> 1"
    "- 1 \<le> sin (2 * pi * of_int (hour d) / 24)" "sin (2 * pi * of_int (hour d) / 24) \<le> 1" for d
    by simp_all
  have tb: "- 7 \<le> obs_temperature (obs ! k) - 31 \<and> obs_temperature (obs ! k) - 31 \<le> 9"
    if k: "k < length obs" for k
  proof -
    from synthesize_rows[OF s k] obtain d
      where "obs ! k = fst (synthesize_row 31 d (noisy\<lparr>drawn := drawn noisy + 2 * k\<rparr>))" ..
    from t[OF this] sb[of d] show ?thesis by linarith
  qed
  have k: "0 < length obs" "1 < length obs" "2 < length obs" using len by simp_all
  have n: "variates noisy (drawn noisy + (2 * 0 + 1)) = - 8"
    "variates noisy (drawn noisy + (2 * 1 + 1)) = 8"
    "variates noisy (drawn noisy + (2 * 2 + 1)) = 0"
    by (simp_all add: noisy_def online_def)
  have h0: "obs_humidity (obs ! 0) = 30"
    using humidity_clamped[OF o k(1)] tb[OF k(1)] unfolding bt n
    by (auto split: if_splits)
  have h1: "obs_humidity (obs ! 1) = 90"
    using humidity_clamped[OF o k(2)] tb[OF k(2)] unfolding bt n
    by (auto split: if_splits)
  have h2: "obs_humidity (obs ! 2) = 60 - (obs_temperature (obs ! 2) - 31)"
    using humidity_clamped[OF o k(3)] tb[OF k(3)] unfolding bt n
    by (auto split: if_splits)
  have h3: "51 \<le> obs_humidity (obs ! 2) \<and> obs_humidity (obs ! 2) \<le> 67"
    unfolding h2 using tb[OF k(3)] by linarith
  show ?thesis using o len bt h0 h1 h2 h3 by (intro exI[of _ obs]) (simp only: simp_thms)
qed



text \<open>
  C7. With the weather service out of reach, training recovers: through the fallback
  base temperature it returns a score and leaves the predictor trained. The forecast of
  the predictor so trained does not recover: \<^verbatim>\<open>predict_weather\<close> calls
  \<^verbatim>\<open>get_current_weather\<close> outside any \<^verbatim>\<open>try\<close>, and the failure of the lookup is
  what its caller gets, while the same forecast with the service in reach returns its
  180 records.
\<close>

theorem C7_lookup_failure_reaches_caller:
  "\<exists>score w' self'.
      train_model sample_lib offline (init ''key'') ''Nagpur'' = (Inr score, w', self')
      \<and> trained self'
      \<and> get_current_weather w' self' ''Nagpur'' = Inl ExternalLookupFailure
      \<and> predict_weather w' self' ''Nagpur'' 180 = (Inl ExternalLookupFailure, w')
      \<and> (\<exists>rs. fst (predict_weather (w'\<lparr>service := service online\<rparr>) self' ''Nagpur'' 180) = Inr rs
             \<and> length rs = 180)"
proof -
  have c: "clock offline = sample_clock" by (simp add: offline_def online_def)
  have v: "valid_datetime (clock offline)"
    "in_bounds ((clock offline)\<lparr>ordinal := ordinal (clock offline) - 365\<rparr>)"
    "in_bounds (clock offline)"
    using valid_sample_clock sample_clock_in_bounds by (simp_all add: c)
  from train_model_returns[OF v sample_lib_permutation, of "init ''key''" "''Nagpur''"]
  obtain score w' self'
    where t: "train_model sample_lib offline (init ''key'') ''Nagpur'' = (Inr score, w', self')"
      and tr: "trained self'" by blast
  from train_model_world[OF t]
  have w: "service w' = service offline" "clock w' = sample_clock" by (simp_all add: c)
  have l: "get_current_weather w' self' ''Nagpur'' = Inl ExternalLookupFailure"
    by (simp add: get_current_weather_def w(1) offline_def)
  have p: "predict_weather w' self' ''Nagpur'' 180 = (Inl ExternalLookupFailure, w')"
    by (rule predict_weather_lookup_fails) (rule l)
  have l2: "get_current_weather (w'\<lparr>service := service online\<rparr>) self' ''Nagpur'' = Inr sample_weather"
    by (simp add: get_current_weather_def online_def)
  have v2: "valid_datetime (clock (w'\<lparr>service := service online\<rparr>))"
    "ordinal (clock (w'\<lparr>service := service online\<rparr>)) + int 180 \<le> MAXORDINAL"
    using valid_sample_clock by (simp_all add: w(2) sample_clock_def MAXORDINAL_def)
  from forecast_returns[OF tr l2 v2]
  have f: "\<exists>rs. fst (predict_weather (w'\<lparr>service := service online\<rparr>) self' ''Nagpur'' 180) = Inr rs
             \<and> length rs = 180" by simp
  show ?thesis using t tr l p f by blast
qed

text \<open>
  C8 (as amended). With a predictor that is not trained (an unfitted scaler or
  regressor, or one fitted on a number of features other than the encoder's seven), a
  forecast over at least one day whose current-weather lookup returns fails at its
  first hour, with \<^verbatim>\<open>NotFittedError\<close> when the scaler is unfitted and with
  \<^verbatim>\<open>ValueError\<close> when the scaler's width is not seven; and no forecast at all
  returns a record computed from such a state.
\<close>

theorem C8_untrained_forecast_fails:
  assumes "\<not> trained self"
  shows "(get_current_weather w self city = Inr cw \<and> valid_datetime (clock w) \<and> 1 \<le> ndays
          \<longrightarrow> (fst (predict_weather w self city ndays) = Inl NotFittedError
                \<or> fst (predict_weather w self city ndays) = Inl ValueError)
             \<and> (scaler self = ScalerUnfitted
                  \<longrightarrow> fst (predict_weather w self city ndays) = Inl NotFittedError)
             \<and> (\<forall>ps. scaler self = ScalerFitted ps \<and> length ps \<noteq> 7
                  \<longrightarrow> fst (predict_weather w self city ndays) = Inl ValueError))
       \<and> (\<forall>rs. fst (predict_weather w self city ndays) = Inr rs \<longrightarrow> rs = [])"
proof (intro conjI impI allI)
  assume a: "get_current_weather w self city = Inr cw \<and> valid_datetime (clock w) \<and> 1 \<le> ndays"
  from raw_prediction_untrained[OF assms, of "clock w"]
  show "fst (predict_weather w self city ndays) = Inl NotFittedError
      \<or> fst (predict_weather w self city ndays) = Inl ValueError"
    using forecast_first_hour[of w self city cw ndays] a by auto
next
  assume a: "get_current_weather w self city = Inr cw \<and> valid_datetime (clock w) \<and> 1 \<le> ndays"
    and u: "scaler self = ScalerUnfitted"
  have "raw_prediction self (clock w) = Inl NotFittedError"
    by (simp add: raw_prediction_def transform_def u)
  then show "fst (predict_weather w self city ndays) = Inl NotFittedError"
    using forecast_first_hour[of w self city cw ndays] a by simp
next
  fix ps
  assume a: "get_current_weather w self city = Inr cw \<and> valid_datetime (clock w) \<and> 1 \<le> ndays"
    and u: "scaler self = ScalerFitted ps \<and> length ps \<noteq> 7"
  have "raw_prediction self (clock w) = Inl ValueError"
    using u by (simp add: raw_prediction_def transform_def length_create_features)
  then show "fst (predict_weather w self city ndays) = Inl ValueError"
    using forecast_first_hour[of w self city cw ndays] a by simp
next
  fix rs
  assume r: "fst (predict_weather w self city ndays) = Inr rs"
  note fr = forecast_returned[OF r]
  have "nat ndays = 0"
  proof (rule ccontr)
    assume "nat ndays \<noteq> 0"
    then have "0 < nat ndays" by simp
    from day_hour_in_range[OF this]
    have "\<not> isl (record_at self (clock w) (24 * int 0))"
      using fr by (simp add: list_all_iff)
    then show False using record_at_untrained[OF assms] by simp
  qed
  then show "rs = []" using fr by simp
qed

theorem C8_untrained_forecast_fails_witness:
  "\<not> trained (init ''key'') \<and> get_current_weather online (init ''key'') ''Nagpur'' = Inr sample_weather
   \<and> valid_datetime (clock online) \<and> scaler (init ''key'') = ScalerUnfitted
   \<and> fst (predict_weather online (init ''key'') ''Nagpur'' 180) = Inl NotFittedError
   \<and> \<not> trained (sample_trained\<lparr>scaler := ScalerFitted [(0, 1), (0, 1)]\<rparr>)
   \<and> fst (predict_weather online (sample_trained\<lparr>scaler := ScalerFitted [(0, 1), (0, 1)]\<rparr>)
            ''Nagpur'' 180) = Inl ValueError"
proof -
  have n1: "\<not> trained (init ''key'')"
    by (simp add: trained_def init_def scaler_width_def)
  have n2: "\<not> trained (sample_trained\<lparr>scaler := ScalerFitted [(0, 1), (0, 1)]\<rparr>)"
    by (simp add: trained_def scaler_width_def)
  have v: "valid_datetime (clock online)" using valid_sample_clock by (simp add: online_def)
  have u: "scaler (init ''key'') = ScalerUnfitted" by (simp add: init_def)
  have "fst (predict_weather online (init ''key'') ''Nagpur'' 180) = Inl NotFittedError"
    using C8_untrained_forecast_fails[OF n1, of online "''Nagpur''" sample_weather 180]
      online_lookup v u by simp
  moreover have "fst (predict_weather online (sample_trained\<lparr>scaler := ScalerFitted [(0, 1), (0, 1)]\<rparr>)
            ''Nagpur'' 180) = Inl ValueError"
    using C8_untrained_forecast_fails[OF n2, of online "''Nagpur''" sample_weather 180]
      online_lookup v by simp
  ultimately show ?thesis using n1 n2 v u online_lookup by simp
qed

theorem C8_no_failure_without_a_day:
  "\<not> trained (init ''key'')
   \<and> fst (predict_weather online (init ''key'') ''Nagpur'' 0) = Inr []
   \<and> fst (predict_weather offline (init ''key'') ''Nagpur'' 180) = Inl ExternalLookupFailure"
  by (simp add: trained_def init_def scaler_width_def predict_weather_def online_lookup
        offline_lookup py_range_def)

text \<open>
  C9. Inference consumes no randomness and is repeatable: a forecast leaves the world,
  and with it the random generator, as it found it; its result does not depend on the
  state of the generator; run again on the world it left, it returns the same result;
  and two forecasts that reach the same timestamp, from whatever start and offset,
  compute the same record for it from the same trained state.
\<close>

theorem C9_inference_repeatable:
  "snd (predict_weather w self city ndays) = w
   \<and> fst (predict_weather (w\<lparr>variates := v, drawn := j\<rparr>) self city ndays)
       = fst (predict_weather w self city ndays)
   \<and> predict_weather (snd (predict_weather w self city ndays)) self city ndays
       = predict_weather w self city ndays
   \<and> (future c1 i1 = Inr d \<and> future c2 i2 = Inr d
        \<longrightarrow> record_at self c1 i1 = record_at self c2 i2
            \<and> record_at self c1 i1 = map_sum id (emit d) (raw_prediction self d))"
proof -
  have a: "snd (predict_weather w self city ndays) = w"
    by (simp add: predict_weather_def split: sum.splits)
  have b: "fst (predict_weather (w\<lparr>variates := v, drawn := j\<rparr>) self city ndays)
       = fst (predict_weather w self city ndays)"
    by (simp add: predict_weather_def get_current_weather_def split: sum.splits)
  have c: "record_at self c1 i1 = record_at self c2 i2
            \<and> record_at self c1 i1 = map_sum id (emit d) (raw_prediction self d)"
    if "future c1 i1 = Inr d" "future c2 i2 = Inr d"
    using that by (simp add: record_at_def split: sum.splits)
  show ?thesis using a b c by auto
qed

theorem C9_inference_repeatable_witness:
  "future sample_clock 24 = Inr (sample_clock\<lparr>ordinal := 739925\<rparr>)
   \<and> future (sample_clock\<lparr>ordinal := 739925\<rparr>) 0 = Inr (sample_clock\<lparr>ordinal := 739925\<rparr>)
   \<and> record_at sample_trained sample_clock 24
       = record_at sample_trained (sample_clock\<lparr>ordinal := 739925\<rparr>) 0
   \<and> fst (predict_weather (online\<lparr>variates := (\<lambda>k. 7), drawn := 12\<rparr>) sample_trained ''Nagpur'' 180)
       = fst (predict_weather online sample_trained ''Nagpur'' 180)"
proof -
  have v: "valid_datetime (sample_clock\<lparr>ordinal := 739925\<rparr>)"
    by (simp add: valid_datetime_def sample_clock_def MAXORDINAL_def)
  note f = future_next_day future_zero[OF v]
  from C9_inference_repeatable[where w = online and self = sample_trained
      and city = "''Nagpur''" and ndays = 180 and v = "\<lambda>k. 7" and j = 12
      and ?c1.0 = sample_clock and ?i1.0 = 24 and d = "sample_clock\<lparr>ordinal := 739925\<rparr>"
      and ?c2.0 = "sample_clock\<lparr>ordinal := 739925\<rparr>" and ?i2.0 = 0]
  show ?thesis using f by simp
qed

text \<open>
  C10. Two calls of \<^verbatim>\<open>train_test_split\<close> on one feature matrix with the same ratio
  and seed, each with its own target, give the same training and test rows of the
  matrix, and each target is cut at the very same indices, so the pair of calls is the
  one joint call on the matrix and both targets; and the trainer, which makes the two
  calls with ratio 0.2 and seed 42, is equal to the trainer that makes one joint split.
\<close>

theorem C10_independent_splits_align:
  "(train_test_split lib X y ts seed = Inr (X_train, X_test, y_train, y_test)
    \<and> train_test_split lib X z ts seed = Inr (X_train2, X_test2, z_train, z_test)
    \<longrightarrow> X_train2 = X_train \<and> X_test2 = X_test
        \<and> (\<exists>train test. split_indices lib (length X) ts seed = Inr (train, test)
              \<and> X_train = map ((!) X) train \<and> X_test = map ((!) X) test
              \<and> y_train = map ((!) y) train \<and> y_test = map ((!) y) test
              \<and> z_train = map ((!) z) train \<and> z_test = map ((!) z) test)
        \<and> train_test_split3 lib X y z ts seed
            = Inr (X_train, X_test, y_train, y_test, z_train, z_test))
   \<and> train_model lib w self city = train_model_joint lib w self city"
proof (intro conjI impI)
  assume a: "train_test_split lib X y ts seed = Inr (X_train, X_test, y_train, y_test)
    \<and> train_test_split lib X z ts seed = Inr (X_train2, X_test2, z_train, z_test)"
  then have s1: "train_test_split lib X y ts seed = Inr (X_train, X_test, y_train, y_test)"
    and s2: "train_test_split lib X z ts seed = Inr (X_train2, X_test2, z_train, z_test)"
    by simp_all
  from s1 obtain train test where ly: "length y = length X"
    and i1: "split_indices lib (length X) ts seed = Inr (train, test)"
    and v1: "X_train = map ((!) X) train" "X_test = map ((!) X) test"
      "y_train = map ((!) y) train" "y_test = map ((!) y) test"
    unfolding train_test_split_indices by blast
  from s2 obtain train' test' where lz: "length z = length X"
    and i2: "split_indices lib (length X) ts seed = Inr (train', test')"
    and v2: "X_train2 = map ((!) X) train'" "X_test2 = map ((!) X) test'"
      "z_train = map ((!) z) train'" "z_test = map ((!) z) test'"
    unfolding train_test_split_indices by blast
  have same: "train' = train" "test' = test" using i1 i2 by simp_all
  show "X_train2 = X_train" "X_test2 = X_test" using v1 v2 same by simp_all
  show "\<exists>train test. split_indices lib (length X) ts seed = Inr (train, test)
              \<and> X_train = map ((!) X) train \<and> X_test = map ((!) X) test
              \<and> y_train = map ((!) y) train \<and> y_test = map ((!) y) test
              \<and> z_train = map ((!) z) train \<and> z_test = map ((!) z) test"
    using i1 v1 v2 same by blast
  show "train_test_split3 lib X y z ts seed
            = Inr (X_train, X_test, y_train, y_test, z_train, z_test)"
    by (simp add: two_splits_joint[OF ly lz] s1 s2)
next
  show "train_model lib w self city = train_model_joint lib w self city"
    by (rule train_model_joint_eq)
qed

theorem C10_independent_splits_align_witness:
  "train_test_split sample_lib [[1], [2], [3], [4], [5::real]] [10, 20, 30, 40, 50::real] (1 / 5) 42
     = Inr ([[4], [3], [2], [1]], [[5]], [40, 30, 20, 10], [50])
   \<and> train_test_split sample_lib [[1], [2], [3], [4], [5::real]] [61, 62, 63, 64, 65::real] (1 / 5) 42
     = Inr ([[4], [3], [2], [1]], [[5]], [64, 63, 62, 61], [65])
   \<and> train_test_split3 sample_lib [[1], [2], [3], [4], [5::real]] [10, 20, 30, 40, 50::real]
        [61, 62, 63, 64, 65::real] (1 / 5) 42
     = Inr ([[4], [3], [2], [1]], [[5]], [40, 30, 20, 10], [50], [64, 63, 62, 61], [65])
   \<and> train_model sample_lib online (init ''key'') ''Nagpur''
     = train_model_joint sample_lib online (init ''key'') ''Nagpur''"
  using C10_independent_splits_align[of sample_lib "[[1], [2], [3], [4], [5::real]]"
      "[10, 20, 30, 40, 50::real]" "1 / 5" 42 "[[4], [3], [2], [1]]" "[[5]]" "[40, 30, 20, 10]"
      "[50]" "[61, 62, 63, 64, 65::real]" "[[4], [3], [2], [1]]" "[[5]]" "[64, 63, 62, 61]" "[65]"
      online "init ''key''" "''Nagpur''"]
    sample_split_temp sample_split_humidity
  by simp

end
